theory Spec2Isabelle
  imports
    Complex_Main
    "HOL-Library.AList"
    "HOL-Library.Sublist"
    "HOL-Library.Char_ord"
    "HOL-Library.List_Lexorder"
begin

section \<open>Values, messages and the state of the delivery subsystem\<close>

text \<open>
  The development embeds \<^verbatim>\<open>backend/app/websocket_manager.py\<close>,
  \<^verbatim>\<open>backend/app/services/fallback_polling.py\<close> and
  \<^verbatim>\<open>backend/app/routes/websocket.py\<close>.

  Python values that travel in messages are a small JSON-like datatype. Two kinds of
  generated strings are kept symbolic: \<open>PIso t\<close> is the text
  \<^verbatim>\<open>datetime.isoformat()\<close> of the instant \<open>t\<close>, and \<open>PUuid n\<close> is
  \<^verbatim>\<open>str(uuid.uuid4())\<close> of the \<open>n\<close>-th draw. A message is a Python
  \<^verbatim>\<open>dict\<close> with string keys: an association list in insertion order.
\<close>

datatype pyval =
    PNone
  | PBool bool
  | PNum real
  | PStr string
  | PIso int
  | PUuid nat
  | PList "pyval list"
  | PDict "(string \<times> pyval) list"

type_synonym message = "(string \<times> pyval) list"
type_synonym conn_id = string
type_synonym user_id = string
type_synonym websocket = nat

text \<open>\<^verbatim>\<open>d.get(k)\<close>, \<^verbatim>\<open>k in d\<close> and the truth value of an optional string.\<close>

definition py_get :: "message \<Rightarrow> string \<Rightarrow> pyval" where
  "py_get d k = (case map_of d k of None \<Rightarrow> PNone | Some v \<Rightarrow> v)"

definition has_key :: "'k \<Rightarrow> ('k \<times> 'v) list \<Rightarrow> bool" where
  "has_key k d = (map_of d k \<noteq> None)"

definition truthy_str :: "string option \<Rightarrow> bool" where
  "truthy_str x = (case x of None \<Rightarrow> False | Some t \<Rightarrow> t \<noteq> [])"

text \<open>
  The per-connection and per-session dictionaries of the source
  (\<^verbatim>\<open>connection_health[cid]\<close>, \<^verbatim>\<open>rate_limits[cid]\<close>,
  \<^verbatim>\<open>session_state[cid]\<close>, \<^verbatim>\<open>active_polls[poll_id]\<close>) have fixed keys
  and become records. Wall-clock instants (\<^verbatim>\<open>datetime.now()\<close>) are integers in
  microseconds, the resolution of \<^verbatim>\<open>datetime\<close>; event-loop time
  (\<^verbatim>\<open>asyncio.get_event_loop().time()\<close>) is a number of seconds.
\<close>

record health =
  connected_at :: real
  last_ping :: "real option"
  ping_count :: nat
  latency_ms :: "real list"

record rate_data =
  tokens :: int
  last_update :: int
  warnings :: nat

record session =
  last_message :: message
  disconnected_at :: int
  ss_user_id :: user_id
  ss_role :: "string option"

record poll =
  poll_user_id :: user_id
  poll_type :: string
  last_poll :: int
  interval :: nat
  last_update_id :: "string option"

text \<open>
  One record holds the dictionaries of \<^verbatim>\<open>WebSocketManager\<close>, the
  \<^verbatim>\<open>active_polls\<close> of \<^verbatim>\<open>FallbackPollingService\<close>, and the environment the
  code talks to. Every dictionary is an association list in insertion order, because
  several loops of the source iterate over \<^verbatim>\<open>.items()\<close> or \<^verbatim>\<open>.values()\<close>.
  A Python \<^verbatim>\<open>set\<close> of connection ids is a duplicate-free list.

  The environment: \<open>wire\<close> is the sequence of frames the transports have accepted
  (\<^verbatim>\<open>websocket.send_text\<close> returned), oldest first; \<open>dead\<close> lists the transports
  on which \<^verbatim>\<open>accept\<close> and \<^verbatim>\<open>send_text\<close> raise; \<open>closed\<close> lists the
  transports the server has closed. The clocks and the token generator are oracles:
  the \<open>i\<close>-th call of \<^verbatim>\<open>datetime.now()\<close> returns \<open>wall_clock i\<close>, and so on,
  with one counter per oracle.
\<close>

record world =
  active_connections :: "(conn_id \<times> websocket) list"
  user_connections :: "(user_id \<times> conn_id list) list"
  connection_roles :: "(conn_id \<times> string) list"
  connection_health :: "(conn_id \<times> health) list"
  message_queue :: "(user_id \<times> message list) list"
  message_history :: "(conn_id \<times> message list) list"
  reconnect_tokens :: "(user_id \<times> string) list"
  session_state :: "(conn_id \<times> session) list"
  rate_limits :: "(conn_id \<times> rate_data) list"
  active_polls :: "(string \<times> poll) list"
  wire :: "(websocket \<times> message) list"
  dead :: "websocket list"
  closed :: "websocket list"
  wall_clock :: "nat \<Rightarrow> int"
  wall_reads :: nat
  loop_clock :: "nat \<Rightarrow> real"
  loop_reads :: nat
  uuid_draws :: nat
  token_source :: "nat \<Rightarrow> string"
  token_draws :: nat

definition history_limit :: nat where
  "history_limit = 100"

definition max_messages_per_minute :: int where
  "max_messages_per_minute = 120"

definition datetime_now :: "world \<Rightarrow> int \<times> world" where
  "datetime_now s = (wall_clock s (wall_reads s), s\<lparr>wall_reads := Suc (wall_reads s)\<rparr>)"

definition loop_time :: "world \<Rightarrow> real \<times> world" where
  "loop_time s = (loop_clock s (loop_reads s), s\<lparr>loop_reads := Suc (loop_reads s)\<rparr>)"

section \<open>Disconnect\<close>

text \<open>
  \<^verbatim>\<open>WebSocketManager.disconnect(connection_id, user_id=None)\<close>: the connection
  leaves \<open>active_connections\<close>; only when a \<^verbatim>\<open>user_id\<close> is passed (and is a
  key of \<open>user_connections\<close>) the id is discarded from that user's set, and the user
  is dropped when the set becomes empty. No other dictionary is touched.
\<close>

definition disconnect :: "conn_id \<Rightarrow> user_id option \<Rightarrow> world \<Rightarrow> world" where
  "disconnect cid uid s =
     (let s1 = (if has_key cid (active_connections s)
                then s\<lparr>active_connections := AList.delete cid (active_connections s)\<rparr>
                else s)
      in case uid of
           None \<Rightarrow> s1
         | Some u \<Rightarrow>
             (case map_of (user_connections s1) u of
                None \<Rightarrow> s1
              | Some conns \<Rightarrow>
                  if u = [] then s1
                  else let conns' = removeAll cid conns
                       in if conns' = []
                          then s1\<lparr>user_connections := AList.delete u (user_connections s1)\<rparr>
                          else s1\<lparr>user_connections := AList.update u conns' (user_connections s1)\<rparr>))"

section \<open>Rate limiter\<close>

text \<open>
  \<^verbatim>\<open>int(time_passed * (self.max_messages_per_minute / 60))\<close> with
  \<^verbatim>\<open>time_passed = (now - last_update).total_seconds()\<close>. The elapsed time is a whole
  number of microseconds; \<^verbatim>\<open>int\<close> truncates towards zero, also for a negative
  elapsed time (the wall clock may step back).
\<close>

definition tokens_to_add :: "int \<Rightarrow> int" where
  "tokens_to_add elapsed =
     (let x = elapsed * max_messages_per_minute
      in if 0 \<le> x then x div 60000000 else - ((- x) div 60000000))"

text \<open>
  The token bucket of one connection, as \<^verbatim>\<open>_check_rate_limit\<close> updates it at the
  instant \<open>now\<close>: a connection without a bucket gets a full one and is allowed without
  paying a token; otherwise the bucket is refilled from the elapsed time, capped at the
  capacity, \<open>last_update\<close> moves to \<open>now\<close>, and a token is taken if there is one,
  else a warning is counted.
\<close>

definition bucket_step :: "int \<Rightarrow> rate_data option \<Rightarrow> bool \<times> rate_data" where
  "bucket_step now b =
     (case b of
        None \<Rightarrow> (True, \<lparr>tokens = max_messages_per_minute, last_update = now, warnings = 0\<rparr>)
      | Some rd \<Rightarrow>
          (let rd1 = rd\<lparr>tokens := min max_messages_per_minute
                                    (tokens rd + tokens_to_add (now - last_update rd)),
                        last_update := now\<rparr>
           in if tokens rd1 > 0 then (True, rd1\<lparr>tokens := tokens rd1 - 1\<rparr>)
              else (False, rd1\<lparr>warnings := warnings rd1 + 1\<rparr>)))"

text \<open>
  \<^verbatim>\<open>WebSocketManager._check_rate_limit(connection_id)\<close>: reads the wall clock,
  steps the bucket, and after more than three warnings disconnects the connection
  (without a user id).
\<close>

definition check_rate_limit :: "conn_id \<Rightarrow> world \<Rightarrow> bool \<times> world" where
  "check_rate_limit cid s0 =
     (let (now, s) = datetime_now s0;
          (ok, rd) = bucket_step now (map_of (rate_limits s) cid);
          s1 = s\<lparr>rate_limits := AList.update cid rd (rate_limits s)\<rparr>
      in if ok then (True, s1)
         else if warnings rd > 3 then (False, disconnect cid None s1)
         else (False, s1))"

section \<open>Fallback polling: starting a session\<close>

datatype exn = KeyError | AttributeError | RuntimeError | TransportError

text \<open>\<^verbatim>\<open>str(n)\<close> for an integer, and \<^verbatim>\<open>int(x)\<close> of a quotient (towards zero).\<close>

fun dec_of_nat :: "nat \<Rightarrow> string" where
  "dec_of_nat n =
     (if n < 10 then [char_of (48 + n)]
      else dec_of_nat (n div 10) @ [char_of (48 + n mod 10)])"

declare dec_of_nat.simps [simp del]

definition str_int :: "int \<Rightarrow> string" where
  "str_int i = (if 0 \<le> i then dec_of_nat (nat i) else CHR ''-'' # dec_of_nat (nat (- i)))"

definition trunc_div :: "int \<Rightarrow> int \<Rightarrow> int" where
  "trunc_div a b = (if 0 \<le> a then a div b else - ((- a) div b))"

definition poll_intervals :: "(string \<times> nat) list" where
  "poll_intervals = [(''interview'', 5), (''application'', 30), (''job'', 60), (''system'', 300)]"

definition max_poll_age :: int where
  "max_poll_age = 24 * 60 * 60 * 1000000"

text \<open>
  \<^verbatim>\<open>FallbackPollingService._get_last_update_id\<close> awaits
  \<^verbatim>\<open>self.cache.get(cache_key)\<close> inside a bare \<^verbatim>\<open>try/except\<close> that returns
  \<^verbatim>\<open>None\<close>. The class \<^verbatim>\<open>CacheService\<close> of
  \<^verbatim>\<open>services/cache.py\<close> defines no method \<^verbatim>\<open>get\<close>, so the lookup raises
  and the result is \<^verbatim>\<open>None\<close>.
\<close>

definition get_last_update_id :: "user_id \<Rightarrow> string \<Rightarrow> string option" where
  "get_last_update_id u pt = None"

text \<open>
  \<^verbatim>\<open>FallbackPollingService.start_polling(user_id, poll_type, callback)\<close>. The
  session id is built from the user, the type and the whole seconds of the clock; the
  session dictionary is built key by key, so the clock is read a second time before an
  unknown type raises \<^verbatim>\<open>KeyError\<close>. The only callback this repository registers is
  the manager's \<^verbatim>\<open>_handle_poll_update\<close>, so the session record does not store it.
  The polling task itself (\<^verbatim>\<open>asyncio.create_task\<close>) runs later, tick by tick.
\<close>

definition start_polling :: "user_id \<Rightarrow> string \<Rightarrow> world \<Rightarrow> (exn + string) \<times> world" where
  "start_polling u pt s0 =
     (let (t1, s1) = datetime_now s0;
          pid = ''poll_'' @ u @ ''_'' @ pt @ ''_'' @ str_int (trunc_div t1 1000000);
          (t2, s2) = datetime_now s1
      in case map_of poll_intervals pt of
           None \<Rightarrow> (Inl KeyError, s2)
         | Some iv \<Rightarrow>
             (Inr pid,
              s2\<lparr>active_polls :=
                    AList.update pid
                      \<lparr>poll_user_id = u, poll_type = pt, last_poll = t2, interval = iv,
                       last_update_id = get_last_update_id u pt\<rparr>
                      (active_polls s2)\<rparr>))"

text \<open>\<^verbatim>\<open>FallbackPollingService.stop_polling(poll_id)\<close>.\<close>

definition stop_polling :: "string \<Rightarrow> world \<Rightarrow> world" where
  "stop_polling pid s =
     (if has_key pid (active_polls s)
      then s\<lparr>active_polls := AList.delete pid (active_polls s)\<rparr>
      else s)"

section \<open>Sending over one connection\<close>

text \<open>
  \<^verbatim>\<open>word in msg_type\<close> for the value under \<^verbatim>\<open>"type"\<close>: substring test on a
  string, membership on a list, key test on a dictionary; the text of a timestamp or
  of a uuid contains none of the four words tested; on any other value Python raises
  \<^verbatim>\<open>TypeError\<close>, written \<open>None\<close>.
\<close>

definition word_in :: "string \<Rightarrow> pyval \<Rightarrow> bool option" where
  "word_in w v =
     (case v of
        PStr t \<Rightarrow> Some (sublist w t)
      | PList vs \<Rightarrow> Some (PStr w \<in> set vs)
      | PDict d \<Rightarrow> Some (has_key w d)
      | PIso _ \<Rightarrow> Some False
      | PUuid _ \<Rightarrow> Some False
      | _ \<Rightarrow> None)"

text \<open>
  \<^verbatim>\<open>WebSocketManager._get_poll_type(message)\<close>: the first of the four words
  contained in the message type; \<^verbatim>\<open>None\<close> when there is none or the test raises.
\<close>

definition get_poll_type :: "message \<Rightarrow> string option" where
  "get_poll_type message =
     (let msg_type = (case map_of message ''type'' of None \<Rightarrow> PStr [] | Some v \<Rightarrow> v)
      in case word_in ''interview'' msg_type of
           None \<Rightarrow> None
         | Some True \<Rightarrow> Some ''interview''
         | Some False \<Rightarrow>
             if word_in ''application'' msg_type = Some True then Some ''application''
             else if word_in ''job'' msg_type = Some True then Some ''job''
             else if word_in ''system'' msg_type = Some True then Some ''system''
             else None)"

text \<open>
  The generator expression of \<^verbatim>\<open>_handle_disconnect_with_fallback\<close>: the first user,
  in dictionary order, whose set contains the connection.
\<close>

definition owner_of :: "conn_id \<Rightarrow> (user_id \<times> conn_id list) list \<Rightarrow> user_id option" where
  "owner_of cid ucs = map_option fst (find (\<lambda>(u, conns). cid \<in> set conns) ucs)"

text \<open>
  \<^verbatim>\<open>WebSocketManager._handle_disconnect_with_fallback(connection_id, message)\<close>:
  without an owning user nothing happens; otherwise the session snapshot is stored,
  a polling session is started when the message type names one, and the connection is
  disconnected, without passing the user id. An exception of \<^verbatim>\<open>start_polling\<close>
  is caught by the enclosing handler, which skips the disconnect.
\<close>

definition handle_disconnect_with_fallback :: "conn_id \<Rightarrow> message \<Rightarrow> world \<Rightarrow> world" where
  "handle_disconnect_with_fallback cid message s =
     (case owner_of cid (user_connections s) of
        None \<Rightarrow> s
      | Some u \<Rightarrow>
          if u = [] then s
          else
            (let (now, s1) = datetime_now s;
                 s2 = s1\<lparr>session_state :=
                           AList.update cid
                             \<lparr>last_message = message, disconnected_at = now, ss_user_id = u,
                              ss_role = map_of (connection_roles s1) cid\<rparr>
                             (session_state s1)\<rparr>
             in case get_poll_type message of
                  None \<Rightarrow> disconnect cid None s2
                | Some pt \<Rightarrow>
                    (case start_polling u pt s2 of
                       (Inl e, s3) \<Rightarrow> s3
                     | (Inr pid, s3) \<Rightarrow> disconnect cid None s3)))"

text \<open>
  The two stamps of \<^verbatim>\<open>send_personal_message\<close>: a \<^verbatim>\<open>message_id\<close> and a
  \<^verbatim>\<open>timestamp\<close> are added to the dictionary when absent. The dictionary is
  mutated in place, so the caller sees the stamps too; the model returns the message.
\<close>

definition stamp :: "message \<Rightarrow> world \<Rightarrow> message \<times> world" where
  "stamp message s =
     (let (m1, s1) =
            (if has_key ''message_id'' message then (message, s)
             else (AList.update ''message_id'' (PUuid (uuid_draws s)) message,
                   s\<lparr>uuid_draws := Suc (uuid_draws s)\<rparr>))
      in if has_key ''timestamp'' m1 then (m1, s1)
         else (let (now, s2) = datetime_now s1
               in (AList.update ''timestamp'' (PIso now) m1, s2)))"

text \<open>\<^verbatim>\<open>history.append(message)\<close> followed by the trim to the last \<open>history_limit\<close>.\<close>

definition append_history :: "message \<Rightarrow> message list \<Rightarrow> message list" where
  "append_history m h =
     (let h1 = h @ [m]
      in if length h1 > history_limit then drop (length h1 - history_limit) h1 else h1)"

text \<open>
  \<^verbatim>\<open>WebSocketManager.send_personal_message(message, connection_id, retry_fallback)\<close>.
  A rate-limit denial returns at once. For a registered connection the message is
  stamped and written; a write that raises goes to the fallback path; a write that
  returns is recorded on the wire and in the history. An unregistered connection goes
  to the fallback path. None of the callees lets an exception escape, so the outermost
  handler of the source is never entered.
\<close>

definition send_personal_message :: "message \<Rightarrow> conn_id \<Rightarrow> bool \<Rightarrow> world \<Rightarrow> message \<times> world" where
  "send_personal_message message cid retry_fallback s0 =
     (let (ok, s) = check_rate_limit cid s0
      in if \<not> ok then (message, s)
         else
           (case map_of (active_connections s) cid of
              Some ws \<Rightarrow>
                (let (m, s1) = stamp message s
                 in if ws \<in> set (dead s1)
                    then (m, if retry_fallback then handle_disconnect_with_fallback cid m s1 else s1)
                    else
                      (let s2 = s1\<lparr>wire := wire s1 @ [(ws, m)]\<rparr>;
                           h = (case map_of (message_history s2) cid of None \<Rightarrow> [] | Some h \<Rightarrow> h)
                       in (m, s2\<lparr>message_history :=
                                   AList.update cid (append_history m h) (message_history s2)\<rparr>)))
            | None \<Rightarrow>
                (message,
                 if retry_fallback then handle_disconnect_with_fallback cid message s else s)))"

section \<open>Fan-out\<close>

text \<open>
  \<^verbatim>\<open>WebSocketManager.send_to_user(message, user_id)\<close>: the user's connection set is
  copied into a list first, then every connection gets the message. The user id may
  be \<^verbatim>\<open>None\<close>, which is no key of the dictionary.
\<close>

fun send_each :: "conn_id list \<Rightarrow> message \<Rightarrow> world \<Rightarrow> message \<times> world" where
  "send_each [] m s = (m, s)"
| "send_each (c # cs) m s =
     (case send_personal_message m c True s of (m1, s1) \<Rightarrow> send_each cs m1 s1)"

definition send_to_user :: "message \<Rightarrow> user_id option \<Rightarrow> world \<Rightarrow> message \<times> world" where
  "send_to_user m uid s =
     (case uid of
        None \<Rightarrow> (m, s)
      | Some u \<Rightarrow>
          (case map_of (user_connections s) u of
             None \<Rightarrow> (m, s)
           | Some conns \<Rightarrow> send_each conns m s))"

text \<open>
  \<^verbatim>\<open>WebSocketManager.broadcast(message, exclude_connections)\<close> iterates over
  \<^verbatim>\<open>self.active_connections.items()\<close> itself, not over a copy, and its handler for
  a failed write calls \<^verbatim>\<open>self.disconnect\<close>, which deletes from that dictionary.
  A Python dictionary iterator remembers the size of the dictionary and raises
  \<^verbatim>\<open>RuntimeError\<close> (dictionary changed size during iteration) at the next step
  when the size differs; the outer handler of \<^verbatim>\<open>broadcast\<close> catches it and logs.
  The loop carries the size \<open>n\<close> seen when the iteration began and the items still to
  visit. The frame is \<^verbatim>\<open>json.dumps(message)\<close>, written without stamps and
  without the rate limiter.
\<close>

fun broadcast_loop ::
  "nat \<Rightarrow> (conn_id \<times> websocket) list \<Rightarrow> message \<Rightarrow> conn_id list \<Rightarrow> world \<Rightarrow> (exn + unit) \<times> world"
where
  "broadcast_loop n [] m ex s =
     (if length (active_connections s) \<noteq> n then (Inl RuntimeError, s) else (Inr (), s))"
| "broadcast_loop n ((cid, ws) # rest) m ex s =
     (if length (active_connections s) \<noteq> n then (Inl RuntimeError, s)
      else if cid \<in> set ex then broadcast_loop n rest m ex s
      else if ws \<in> set (dead s) then broadcast_loop n rest m ex (disconnect cid None s)
      else broadcast_loop n rest m ex (s\<lparr>wire := wire s @ [(ws, m)]\<rparr>))"

definition broadcast :: "message \<Rightarrow> conn_id list \<Rightarrow> world \<Rightarrow> world" where
  "broadcast m ex s =
     snd (broadcast_loop (length (active_connections s)) (active_connections s) m ex s)"

text \<open>
  \<^verbatim>\<open>WebSocketManager.broadcast_to_role(message, role)\<close> iterates over
  \<^verbatim>\<open>connection_roles.items()\<close>, a dictionary that nothing called from the loop
  changes, and tests membership in \<open>active_connections\<close> at each step.
\<close>

fun role_loop :: "(conn_id \<times> string) list \<Rightarrow> string \<Rightarrow> message \<Rightarrow> world \<Rightarrow> message \<times> world" where
  "role_loop [] role m s = (m, s)"
| "role_loop ((cid, r) # rest) role m s =
     (if r = role \<and> has_key cid (active_connections s)
      then (case send_personal_message m cid True s of (m1, s1) \<Rightarrow> role_loop rest role m1 s1)
      else role_loop rest role m s)"

definition broadcast_to_role :: "message \<Rightarrow> string \<Rightarrow> world \<Rightarrow> message \<times> world" where
  "broadcast_to_role m role s = role_loop (connection_roles s) role m s"

section \<open>Typed updates\<close>

definition opt_str :: "string option \<Rightarrow> pyval" where
  "opt_str x = (case x of None \<Rightarrow> PNone | Some t \<Rightarrow> PStr t)"

text \<open>
  \<^verbatim>\<open>handle_interview_update\<close> and \<^verbatim>\<open>handle_application_update\<close> differ in the
  message type only: the message goes to the candidate, then a copy with the key
  \<^verbatim>\<open>candidate_id\<close> goes to the role \<^verbatim>\<open>recruiter\<close>.
\<close>

definition handle_typed_update ::
  "string \<Rightarrow> pyval \<Rightarrow> user_id option \<Rightarrow> pyval \<Rightarrow> message \<Rightarrow> world \<Rightarrow> world"
where
  "handle_typed_update ty job_id uid status data s0 =
     (let (t, s1) = loop_time s0;
          message = [(''type'', PStr ty), (''job_id'', job_id), (''status'', status),
                     (''data'', PDict data), (''timestamp'', PNum t)];
          (m1, s2) = send_to_user message uid s1;
          (m2, s3) = broadcast_to_role (AList.update ''candidate_id'' (opt_str uid) m1) ''recruiter'' s2
      in s3)"

definition handle_interview_update ::
  "pyval \<Rightarrow> user_id option \<Rightarrow> pyval \<Rightarrow> message \<Rightarrow> world \<Rightarrow> world"
where
  "handle_interview_update = handle_typed_update ''interview_update''"

definition handle_application_update ::
  "pyval \<Rightarrow> user_id option \<Rightarrow> pyval \<Rightarrow> message \<Rightarrow> world \<Rightarrow> world"
where
  "handle_application_update = handle_typed_update ''application_update''"

text \<open>\<^verbatim>\<open>WebSocketManager.handle_job_update(job_id, status, data)\<close>.\<close>

definition handle_job_update :: "pyval \<Rightarrow> string \<Rightarrow> message \<Rightarrow> world \<Rightarrow> world" where
  "handle_job_update job_id status data s0 =
     (let (t, s1) = loop_time s0
      in broadcast [(''type'', PStr ''job_update''), (''job_id'', job_id), (''status'', PStr status),
                    (''data'', PDict data), (''timestamp'', PNum t)] [] s1)"

section \<open>The per-user message queue\<close>

text \<open>
  The test of the list comprehension in \<^verbatim>\<open>_cleanup_message_queue\<close>:
  \<^verbatim>\<open>msg.get("timestamp", current_time) > expiry_time\<close>. A number (or a boolean,
  which is a number in Python) is compared; any other value raises
  \<^verbatim>\<open>TypeError\<close>, written \<open>None\<close>.
\<close>

definition is_fresh :: "real \<Rightarrow> real \<Rightarrow> message \<Rightarrow> bool option" where
  "is_fresh current_time expiry_time msg =
     (case map_of msg ''timestamp'' of
        None \<Rightarrow> Some (current_time > expiry_time)
      | Some (PNum x) \<Rightarrow> Some (x > expiry_time)
      | Some (PBool b) \<Rightarrow> Some ((if b then 1 else 0) > expiry_time)
      | Some _ \<Rightarrow> None)"

fun keep_fresh :: "real \<Rightarrow> real \<Rightarrow> message list \<Rightarrow> message list option" where
  "keep_fresh c e [] = Some []"
| "keep_fresh c e (m # ms) =
     (case is_fresh c e m of
        None \<Rightarrow> None
      | Some keep \<Rightarrow>
          (case keep_fresh c e ms of
             None \<Rightarrow> None
           | Some r \<Rightarrow> Some (if keep then m # r else r)))"

text \<open>
  The loop over \<^verbatim>\<open>list(self.message_queue.keys())\<close>: each queue is replaced by its
  fresh entries and deleted when none is left. An exception (a failed comparison, a
  missing key) ends the sweep where it stands; the handler of
  \<^verbatim>\<open>_cleanup_message_queue\<close> logs it.
\<close>

fun cleanup_loop ::
  "user_id list \<Rightarrow> real \<Rightarrow> real \<Rightarrow> (user_id \<times> message list) list \<Rightarrow> (user_id \<times> message list) list"
where
  "cleanup_loop [] c e q = q"
| "cleanup_loop (u # us) c e q =
     (case map_of q u of
        None \<Rightarrow> q
      | Some msgs \<Rightarrow>
          (case keep_fresh c e msgs of
             None \<Rightarrow> q
           | Some kept \<Rightarrow>
               cleanup_loop us c e (if kept = [] then AList.delete u q else AList.update u kept q)))"

text \<open>\<^verbatim>\<open>WebSocketManager._cleanup_message_queue()\<close>: the retention is 24 hours.\<close>

definition cleanup_message_queue :: "world \<Rightarrow> world" where
  "cleanup_message_queue s0 =
     (let (current_time, s) = loop_time s0;
          expiry_time = current_time - (24 * 60 * 60)
      in s\<lparr>message_queue :=
              cleanup_loop (map fst (message_queue s)) current_time expiry_time (message_queue s)\<rparr>)"

text \<open>
  An event taken from the pub/sub bus. The publishers of this repository send strings
  under \<^verbatim>\<open>event_type\<close>, \<^verbatim>\<open>user_id\<close> and \<^verbatim>\<open>target_role\<close> and a dictionary
  under \<^verbatim>\<open>payload\<close>; an absent key reads as \<^verbatim>\<open>None\<close>
  (\<^verbatim>\<open>payload\<close>: as the empty dictionary).
\<close>

record event_data =
  ev_event_type :: "string option"
  ev_job_id :: pyval
  ev_user_id :: "string option"
  ev_target_role :: "string option"
  ev_payload :: message

text \<open>The first part of \<^verbatim>\<open>_handle_redis_event\<close>: dispatch on the event type.\<close>

definition dispatch_event :: "string \<Rightarrow> event_data \<Rightarrow> world \<Rightarrow> world" where
  "dispatch_event et ev s =
     (if prefix ''interview_'' et then
        (if et = ''interview_questions_ready''
         then handle_interview_update (ev_job_id ev) (ev_user_id ev) (PStr ''questions_ready'') (ev_payload ev) s
         else if et = ''interview_response_evaluated''
         then handle_interview_update (ev_job_id ev) (ev_user_id ev) (PStr ''response_evaluated'') (ev_payload ev) s
         else if et = ''interview_completed''
         then handle_interview_update (ev_job_id ev) (ev_user_id ev) (PStr ''completed'') (ev_payload ev) s
         else s)
      else if prefix ''application_'' et then
        (if et = ''application_status_changed''
         then handle_application_update (ev_job_id ev) (ev_user_id ev)
                (py_get (ev_payload ev) ''status'') (ev_payload ev) s
         else s)
      else if suffix ''_completed'' et then
        (if et = ''resume_processed'' then handle_job_update (ev_job_id ev) ''resume_processed'' (ev_payload ev) s
         else if et = ''video_processed'' then handle_job_update (ev_job_id ev) ''video_processed'' (ev_payload ev) s
         else if et = ''job_matching_completed'' then handle_job_update (ev_job_id ev) ''matching_completed'' (ev_payload ev) s
         else if et = ''candidate_scored'' then handle_job_update (ev_job_id ev) ''scoring_completed'' (ev_payload ev) s
         else s)
      else s)"

text \<open>
  The second part: routing of the generic \<^verbatim>\<open>event\<close> message. A role wins over a
  user; a user with no entry in \<open>user_connections\<close> gets the message appended to the
  queue; with neither, the message is broadcast.
\<close>

definition route_event :: "message \<Rightarrow> event_data \<Rightarrow> world \<Rightarrow> world" where
  "route_event message ev s =
     (if truthy_str (ev_target_role ev) then
        (case ev_target_role ev of
           Some role \<Rightarrow> snd (broadcast_to_role message role s)
         | None \<Rightarrow> s)
      else if truthy_str (ev_user_id ev) then
        (case ev_user_id ev of
           Some u \<Rightarrow>
             if has_key u (user_connections s) then snd (send_to_user message (Some u) s)
             else
               (let q = (case map_of (message_queue s) u of None \<Rightarrow> [] | Some q \<Rightarrow> q)
                in s\<lparr>message_queue := AList.update u (q @ [message]) (message_queue s)\<rparr>)
         | None \<Rightarrow> s)
      else broadcast message [] s)"

text \<open>
  \<^verbatim>\<open>WebSocketManager._handle_redis_event(event_data)\<close>: the message is built (the
  loop clock is read), the event is dispatched and routed, and the queues are swept.
  An event type that is \<^verbatim>\<open>None\<close> raises at \<^verbatim>\<open>startswith\<close>; the handler logs
  it and nothing else happens.
\<close>

definition event_message :: "event_data \<Rightarrow> real \<Rightarrow> message" where
  "event_message ev t =
     [(''type'', PStr ''event''), (''event_type'', opt_str (ev_event_type ev)),
      (''job_id'', ev_job_id ev), (''data'', PDict (ev_payload ev)),
      (''timestamp'', PNum t)]"

definition handle_redis_event :: "event_data \<Rightarrow> world \<Rightarrow> world" where
  "handle_redis_event ev s0 =
     (let (t, s1) = loop_time s0;
          message = event_message ev t
      in case ev_event_type ev of
           None \<Rightarrow> s1
         | Some et \<Rightarrow> cleanup_message_queue (route_event message ev (dispatch_event et ev s1)))"

section \<open>Connect\<close>

text \<open>The loop \<^verbatim>\<open>for msg in queued_messages: await self.send_personal_message(msg, connection_id)\<close>.\<close>

fun replay :: "message list \<Rightarrow> conn_id \<Rightarrow> world \<Rightarrow> world" where
  "replay [] cid s = s"
| "replay (m # ms) cid s = replay ms cid (snd (send_personal_message m cid True s))"

text \<open>
  The branch \<^verbatim>\<open>if user_id:\<close> of \<^verbatim>\<open>connect\<close>: the connection joins the user's
  set; a queue stored for the user is taken out of \<open>message_queue\<close> and replayed.
\<close>

definition register_user :: "user_id \<Rightarrow> conn_id \<Rightarrow> world \<Rightarrow> world" where
  "register_user u cid s =
     (let conns = (case map_of (user_connections s) u of None \<Rightarrow> [] | Some cs \<Rightarrow> cs);
          s1 = s\<lparr>user_connections := AList.update u (List.insert cid conns) (user_connections s)\<rparr>
      in case map_of (message_queue s1) u of
           None \<Rightarrow> s1
         | Some queued_messages \<Rightarrow>
             replay queued_messages cid (s1\<lparr>message_queue := AList.delete u (message_queue s1)\<rparr>))"

definition welcome_message :: "conn_id \<Rightarrow> user_id option \<Rightarrow> world \<Rightarrow> message" where
  "welcome_message cid uid s =
     [(''type'', PStr ''connection_established''),
      (''connection_id'', PStr cid),
      (''reconnect_token'',
         (case uid of None \<Rightarrow> PNone | Some u \<Rightarrow> opt_str (map_of (reconnect_tokens s) u))),
      (''message'', PStr ''Connected to real-time updates'')]"

text \<open>
  \<^verbatim>\<open>WebSocketManager.connect(websocket, connection_id, user_id, role)\<close>. An
  \<^verbatim>\<open>accept\<close> that raises is re-raised before anything is registered. The reconnect
  token is \<^verbatim>\<open>secrets.token_urlsafe(32)\<close>, the next value of the token oracle. The
  heartbeat task is created last and runs on its own.
\<close>

definition connect ::
  "websocket \<Rightarrow> conn_id \<Rightarrow> user_id option \<Rightarrow> string option \<Rightarrow> world \<Rightarrow> exn + world"
where
  "connect ws cid uid role s0 =
     (if ws \<in> set (dead s0) then Inl TransportError
      else
        (let s1 = s0\<lparr>active_connections := AList.update cid ws (active_connections s0)\<rparr>;
             s2 = (case uid of Some u \<Rightarrow> if u \<noteq> [] then register_user u cid s1 else s1 | None \<Rightarrow> s1);
             s3 = (case role of
                     Some r \<Rightarrow> if r \<noteq> [] then s2\<lparr>connection_roles := AList.update cid r (connection_roles s2)\<rparr> else s2
                   | None \<Rightarrow> s2);
             (t, s4) = loop_time s3;
             s5 = s4\<lparr>connection_health :=
                       AList.update cid
                         \<lparr>connected_at = t, last_ping = None, ping_count = 0, latency_ms = []\<rparr>
                         (connection_health s4)\<rparr>;
             s6 = (case uid of
                     Some u \<Rightarrow>
                       if u \<noteq> []
                       then s5\<lparr>reconnect_tokens :=
                                 AList.update u (token_source s5 (token_draws s5)) (reconnect_tokens s5),
                               token_draws := Suc (token_draws s5)\<rparr>
                       else s5
                   | None \<Rightarrow> s5)
         in Inr (snd (send_personal_message (welcome_message cid uid s6) cid True s6))))"

section \<open>The connect endpoint and its receive loop\<close>

text \<open>
  \<^verbatim>\<open>round(latency, 2)\<close>: to the nearest hundredth, a tie to the even neighbour.
\<close>

definition py_round2 :: "real \<Rightarrow> real" where
  "py_round2 x =
     (let y = x * 100; f = \<lfloor>y\<rfloor>; r = y - of_int f
      in of_int (if r < 1 / 2 then f else if r > 1 / 2 then f + 1 else if even f then f else f + 1) / 100)"

text \<open>
  \<^verbatim>\<open>WebSocketManager.handle_pong(connection_id, ping_timestamp)\<close>. The loop clock is
  read before the subtraction; a \<^verbatim>\<open>ping_timestamp\<close> that is no number makes the
  subtraction raise, which the handler logs. The window keeps the last ten latencies.
\<close>

definition handle_pong :: "conn_id \<Rightarrow> pyval \<Rightarrow> world \<Rightarrow> world" where
  "handle_pong cid ping_timestamp s0 =
     (case map_of (connection_health s0) cid of
        None \<Rightarrow> s0
      | Some h \<Rightarrow>
          (let (t, s) = loop_time s0;
               sent = (case ping_timestamp of
                         PNum x \<Rightarrow> Some x
                       | PBool b \<Rightarrow> Some (if b then 1 else 0)
                       | _ \<Rightarrow> None)
           in case sent of
                None \<Rightarrow> s
              | Some x \<Rightarrow>
                  (let l = latency_ms h @ [py_round2 ((t - x) * 1000)];
                       l' = drop (length l - 10) l
                   in s\<lparr>connection_health :=
                          AList.update cid (h\<lparr>latency_ms := l'\<rparr>) (connection_health s)\<rparr>)))"

text \<open>
  What \<^verbatim>\<open>await websocket.receive_text()\<close> yields: a text frame, given with the
  result of \<^verbatim>\<open>json.loads\<close> on it (\<open>None\<close> when the text is no JSON), or the
  exception \<^verbatim>\<open>WebSocketDisconnect\<close> when the client has gone.
\<close>

datatype inbound = Text "pyval option" | ClientGone

text \<open>
  How the endpoint stands after the frames so far: still waiting in
  \<^verbatim>\<open>receive_text\<close> with the connection open, left through the
  \<^verbatim>\<open>WebSocketDisconnect\<close> handler, or left through the outer handler, which
  closes the transport.
\<close>

datatype endpoint_state = Waiting | Disconnected | Closed exn

text \<open>
  The loop \<^verbatim>\<open>while True\<close> of \<^verbatim>\<open>websocket_endpoint\<close>. Text that does not parse
  is skipped by \<^verbatim>\<open>continue\<close>. On the parsed value the loop calls
  \<^verbatim>\<open>message.get("type")\<close>: only a dictionary has \<^verbatim>\<open>get\<close>, any other JSON value
  raises \<^verbatim>\<open>AttributeError\<close>. A \<^verbatim>\<open>user_message\<close> is handed to
  \<^verbatim>\<open>websocket_manager.handle_user_message\<close>, a method the class
  \<^verbatim>\<open>WebSocketManager\<close> does not define, which raises \<^verbatim>\<open>AttributeError\<close> as
  well. Neither is a \<^verbatim>\<open>WebSocketDisconnect\<close>, so both leave the loop through the
  outer handler: the error is logged, the transport is closed, and the manager is not
  told.
\<close>

fun receive_loop ::
  "conn_id \<Rightarrow> user_id \<Rightarrow> websocket \<Rightarrow> inbound list \<Rightarrow> world \<Rightarrow> endpoint_state \<times> world"
where
  "receive_loop cid uid ws [] s = (Waiting, s)"
| "receive_loop cid uid ws (ClientGone # fs) s = (Disconnected, disconnect cid (Some uid) s)"
| "receive_loop cid uid ws (Text None # fs) s = receive_loop cid uid ws fs s"
| "receive_loop cid uid ws (Text (Some (PDict d)) # fs) s =
     (if py_get d ''type'' = PStr ''pong''
      then receive_loop cid uid ws fs (handle_pong cid (py_get d ''ping_timestamp'') s)
      else if py_get d ''type'' = PStr ''user_message''
      then (Closed AttributeError, s\<lparr>closed := closed s @ [ws]\<rparr>)
      else receive_loop cid uid ws fs s)"
| "receive_loop cid uid ws (Text (Some v) # fs) s =
     (Closed AttributeError, s\<lparr>closed := closed s @ [ws]\<rparr>)"

text \<open>
  \<^verbatim>\<open>websocket_endpoint(websocket, user_id, role)\<close>, with the connection id it draws
  and the frames the client sends.
\<close>

definition websocket_endpoint ::
  "websocket \<Rightarrow> conn_id \<Rightarrow> user_id \<Rightarrow> string option \<Rightarrow> inbound list \<Rightarrow> world \<Rightarrow> endpoint_state \<times> world"
where
  "websocket_endpoint ws cid uid role frames s =
     (case connect ws cid (Some uid) role s of
        Inl e \<Rightarrow> (Closed e, s\<lparr>closed := closed s @ [ws]\<rparr>)
      | Inr s1 \<Rightarrow> receive_loop cid uid ws frames s1)"

section \<open>The reconnect endpoint\<close>

datatype http_error = HTTPException nat string

record reconnect_reply =
  rr_status :: string
  rr_user_id :: user_id
  rr_role :: "string option"
  rr_last_message :: message
  rr_disconnected_at :: int

text \<open>
  \<^verbatim>\<open>reconnect_session(user_id, reconnect_token, role)\<close> of
  \<^verbatim>\<open>routes/websocket.py\<close>. The stored token must be present, non-empty and equal
  to the one supplied, else 401. The session is the first value of
  \<open>session_state\<close>, in dictionary order, whose user is the one asked for; without one,
  404. Nothing in the body raises anything else, so the 500 handler is never entered.
\<close>

definition reconnect_session ::
  "user_id \<Rightarrow> string \<Rightarrow> string option \<Rightarrow> world \<Rightarrow> http_error + reconnect_reply"
where
  "reconnect_session uid reconnect_token role s =
     (let stored_token = map_of (reconnect_tokens s) uid
      in if \<not> truthy_str stored_token \<or> stored_token \<noteq> Some reconnect_token
         then Inl (HTTPException 401 ''Invalid reconnect token'')
         else
           (case find (\<lambda>st. ss_user_id st = uid) (map snd (session_state s)) of
              None \<Rightarrow> Inl (HTTPException 404 ''Session not found'')
            | Some st \<Rightarrow>
                Inr \<lparr>rr_status = ''ready_to_reconnect'',
                     rr_user_id = uid,
                     rr_role = (if truthy_str role then role else ss_role st),
                     rr_last_message = last_message st,
                     rr_disconnected_at = disconnected_at st\<rparr>))"

section \<open>Fallback polling: one tick\<close>

text \<open>
  A document of the system of record: its \<^verbatim>\<open>_id\<close> and its other fields. The
  identifiers are strings, ordered as strings: the watermark the query compares them
  with, \<^verbatim>\<open>{"_id": {"$gt": last_update_id}}\<close>, is the string
  \<^verbatim>\<open>str(doc["_id"])\<close> of an earlier document.
\<close>

record doc =
  doc_id :: string
  doc_fields :: message

record database =
  interview_sessions :: "doc list"
  applications :: "doc list"
  jobs :: "doc list"
  system_updates :: "doc list"

text \<open>
  An update as \<^verbatim>\<open>_format_update\<close> builds it: the keys \<^verbatim>\<open>timestamp\<close> (a
  \<^verbatim>\<open>datetime\<close>) and \<^verbatim>\<open>id\<close> of \<^verbatim>\<open>base_msg\<close>, and the keys that depend on
  the polling type.
\<close>

record update =
  upd_timestamp :: int
  upd_id :: string
  upd_rest :: message

definition get_or :: "message \<Rightarrow> string \<Rightarrow> pyval \<Rightarrow> pyval" where
  "get_or d k dflt = (case map_of d k of None \<Rightarrow> dflt | Some v \<Rightarrow> v)"

text \<open>
  \<^verbatim>\<open>FallbackPollingService._format_update(doc, poll_type)\<close>. A subscript on a
  missing field raises \<^verbatim>\<open>KeyError\<close>; the handler logs it and the result is
  \<^verbatim>\<open>None\<close>, as it is for an unknown polling type. The clock is read first.
\<close>

definition format_update :: "doc \<Rightarrow> string \<Rightarrow> world \<Rightarrow> update option \<times> world" where
  "format_update d pt s0 =
     (let (now, s) = datetime_now s0;
          f = doc_fields d;
          mk = (\<lambda>rest. Some \<lparr>upd_timestamp = now, upd_id = doc_id d, upd_rest = rest\<rparr>)
      in (if pt = ''interview'' then
            (case (map_of f ''status'', map_of f ''session_id'', map_of f ''job_id'') of
               (Some st, Some sid, Some jid) \<Rightarrow>
                 mk [(''type'', PStr (if st = PStr ''ready'' then ''interview_questions_ready''
                                      else ''interview_completed'')),
                     (''session_id'', sid), (''job_id'', jid), (''status'', st),
                     (''data'', PDict [(''questions'', get_or f ''questions'' (PList [])),
                                       (''scores'', get_or f ''scores'' (PDict []))])]
             | _ \<Rightarrow> None)
          else if pt = ''application'' then
            (case (map_of f ''job_id'', map_of f ''status'') of
               (Some jid, Some st) \<Rightarrow>
                 mk [(''type'', PStr ''application_status_changed''),
                     (''application_id'', PStr (doc_id d)), (''job_id'', jid), (''status'', st),
                     (''data'', PDict [(''score'', get_or f ''score'' PNone),
                                       (''feedback'', get_or f ''feedback'' PNone)])]
             | _ \<Rightarrow> None)
          else if pt = ''job'' then
            (case (map_of f ''status'', map_of f ''title'') of
               (Some st, Some ti) \<Rightarrow>
                 mk [(''type'', PStr ''job_updated''),
                     (''job_id'', PStr (doc_id d)), (''status'', st),
                     (''data'', PDict [(''title'', ti),
                                       (''applications'', get_or f ''application_count'' (PNum 0))])]
             | _ \<Rightarrow> None)
          else if pt = ''system'' then
            mk [(''type'', PStr ''system_announcement''),
                (''severity'', get_or f ''severity'' (PStr ''info'')),
                (''title'', get_or f ''title'' PNone),
                (''content'', get_or f ''content'' PNone),
                (''action_required'', get_or f ''action_required'' (PBool False))]
          else None,
          s))"

text \<open>The loop \<^verbatim>\<open>async for doc in cursor\<close>: the documents that format are kept.\<close>

fun format_all :: "doc list \<Rightarrow> string \<Rightarrow> world \<Rightarrow> update list \<times> world" where
  "format_all [] pt s = ([], s)"
| "format_all (d # ds) pt s =
     (case format_update d pt s of
        (r, s1) \<Rightarrow>
          (case format_all ds pt s1 of
             (us, s2) \<Rightarrow> ((case r of None \<Rightarrow> us | Some u \<Rightarrow> u # us), s2)))"

text \<open>
  The query of \<^verbatim>\<open>_get_updates\<close>: the user's documents, above the watermark when
  there is a non-empty one, with the status filter of the polling type.
\<close>

definition query_matches :: "user_id \<Rightarrow> string \<Rightarrow> string option \<Rightarrow> doc \<Rightarrow> bool" where
  "query_matches u pt last_id d =
     (map_of (doc_fields d) ''user_id'' = Some (PStr u)
      \<and> (case last_id of None \<Rightarrow> True | Some w \<Rightarrow> w = [] \<or> w < doc_id d)
      \<and> (if pt = ''interview''
         then map_of (doc_fields d) ''status'' \<in> {Some (PStr ''ready''), Some (PStr ''in_progress''), Some (PStr ''completed'')}
         else if pt = ''job'' then map_of (doc_fields d) ''status'' = Some (PStr ''active'')
         else True))"

definition collection_of :: "string \<Rightarrow> database \<Rightarrow> doc list" where
  "collection_of pt db =
     (if pt = ''interview'' then interview_sessions db
      else if pt = ''application'' then applications db
      else if pt = ''job'' then jobs db
      else system_updates db)"

text \<open>
  \<^verbatim>\<open>FallbackPollingService._get_updates(user_id, poll_type, last_update_id)\<close>:
  \<^verbatim>\<open>find(query, sort=[("_id", 1)], limit=100)\<close>, then the formatting. The database
  is a parameter: \<open>Some db\<close> when the client opens and the query runs on the contents
  \<open>db\<close>. Whatever is raised inside the \<^verbatim>\<open>try\<close> block is logged and the result is
  the empty list, which is the case \<open>None\<close>; the block begins with
  \<^verbatim>\<open>client[settings.mongo_db_name]\<close>, and the module has no import of the name
  \<^verbatim>\<open>settings\<close>.
\<close>

definition get_updates ::
  "database option \<Rightarrow> user_id \<Rightarrow> string \<Rightarrow> string option \<Rightarrow> world \<Rightarrow> update list \<times> world"
where
  "get_updates db u pt last_id s =
     (case db of
        None \<Rightarrow> ([], s)
      | Some d \<Rightarrow>
          format_all (take 100 (sort_key doc_id (filter (query_matches u pt last_id) (collection_of pt d)))) pt s)"

datatype tick_end = Sleeping | Stopped

text \<open>
  One pass through the body of the loop of \<^verbatim>\<open>_poll_loop(poll_id)\<close>, for the
  database \<open>db\<close> the pass sees and a callback \<open>cb\<close> that tells whether
  \<^verbatim>\<open>await poll["callback"](updates)\<close> returns (\<open>True\<close>) or raises. A session
  that is no longer registered ends the loop. With updates, the callback runs and the
  watermark moves to the \<^verbatim>\<open>id\<close> of the last update if that is non-empty. Then
  \<^verbatim>\<open>poll["last_poll"] = datetime.now()\<close>, and the age test
  \<^verbatim>\<open>datetime.now() - poll["last_poll"] > self.max_poll_age\<close> with a second reading
  of the clock. An exception of the callback skips the rest of the pass. The result
  is the list of updates of the pass and whether the loop goes to sleep or has stopped.
\<close>

definition poll_tick ::
  "string \<Rightarrow> database option \<Rightarrow> (update list \<Rightarrow> bool) \<Rightarrow> world \<Rightarrow> (update list \<times> tick_end) \<times> world"
where
  "poll_tick pid db cb s0 =
     (case map_of (active_polls s0) pid of
        None \<Rightarrow> (([], Stopped), s0)
      | Some p \<Rightarrow>
          (let (updates, s) = get_updates db (poll_user_id p) (poll_type p) (last_update_id p) s0
           in if updates \<noteq> [] \<and> \<not> cb updates then ((updates, Sleeping), s)
              else
                (let p1 = (if updates \<noteq> [] \<and> upd_id (last updates) \<noteq> []
                           then p\<lparr>last_update_id := Some (upd_id (last updates))\<rparr> else p);
                     (t1, s1) = datetime_now s;
                     p2 = p1\<lparr>last_poll := t1\<rparr>;
                     (t2, s2) = datetime_now s1;
                     s3 = s2\<lparr>active_polls := AList.update pid p2 (active_polls s2)\<rparr>
                 in if t2 - last_poll p2 > max_poll_age
                    then ((updates, Stopped), stop_polling pid s3)
                    else ((updates, Sleeping), s3))))"

section \<open>Runs\<close>

text \<open>Consecutive rate-limit checks of one connection, at the instants of the list.\<close>

fun bucket_run :: "int list \<Rightarrow> rate_data option \<Rightarrow> bool list \<times> rate_data option" where
  "bucket_run [] b = ([], b)"
| "bucket_run (t # ts) b =
     (case bucket_step t b of
        (ok, rd) \<Rightarrow> (case bucket_run ts (Some rd) of (oks, b') \<Rightarrow> (ok # oks, b')))"

definition allowed :: "int list \<Rightarrow> rate_data option \<Rightarrow> nat" where
  "allowed ts b = length (filter id (fst (bucket_run ts b)))"

text \<open>
  The checks a connection without a bucket passes when no time elapses: the one that
  creates the bucket, and one for each token of the full bucket.
\<close>

definition initial_burst :: nat where
  "initial_burst = nat max_messages_per_minute + 1"

text \<open>Events handled one after the other.\<close>

fun handle_events :: "event_data list \<Rightarrow> world \<Rightarrow> world" where
  "handle_events [] s = s"
| "handle_events (ev # evs) s = handle_events evs (handle_redis_event ev s)"

text \<open>
  A manager just constructed, with no polling session, in an environment given by the
  dead transports and the oracles.
\<close>

definition fresh_world :: "websocket list \<Rightarrow> (nat \<Rightarrow> int) \<Rightarrow> (nat \<Rightarrow> real) \<Rightarrow> (nat \<Rightarrow> string) \<Rightarrow> world" where
  "fresh_world dd wc lc ts =
     \<lparr>active_connections = [], user_connections = [], connection_roles = [],
      connection_health = [], message_queue = [], message_history = [],
      reconnect_tokens = [], session_state = [], rate_limits = [], active_polls = [],
      wire = [], dead = dd, closed = [], wall_clock = wc, wall_reads = 0,
      loop_clock = lc, loop_reads = 0, uuid_draws = 0, token_source = ts, token_draws = 0\<rparr>"

text \<open>
  A bucket as a run of checks at non-decreasing instants leaves it: no token debt, and
  a last update not after the instant \<open>t\<close> of the next check.
\<close>

definition good_bucket :: "rate_data option \<Rightarrow> int \<Rightarrow> bool" where
  "good_bucket b t = (case b of None \<Rightarrow> True | Some rd \<Rightarrow> 0 \<le> tokens rd \<and> last_update rd \<le> t)"

text \<open>
  The parts of the state that no send, broadcast or typed update changes: the user,
  role and health indexes, the queues, the reconnect tokens, and the environment's
  transports, clocks and token generator.
\<close>

definition untouched :: "world \<Rightarrow> world \<Rightarrow> bool" where
  "untouched s s' =
     (user_connections s' = user_connections s \<and> connection_roles s' = connection_roles s
      \<and> connection_health s' = connection_health s \<and> message_queue s' = message_queue s
      \<and> reconnect_tokens s' = reconnect_tokens s \<and> dead s' = dead s \<and> closed s' = closed s
      \<and> wall_clock s' = wall_clock s \<and> loop_clock s' = loop_clock s
      \<and> token_source s' = token_source s \<and> token_draws s' = token_draws s)"

text \<open>
  The retention window in the words of the specification: an entry is within the window
  at the instant \<open>now\<close> when its timestamp is a number less than 24 hours old; a queue
  keeps its entries within the window, in order, and disappears when none is left.
\<close>

definition within_retention :: "real \<Rightarrow> message \<Rightarrow> bool" where
  "within_retention now m =
     (case map_of m ''timestamp'' of Some (PNum x) \<Rightarrow> now - 24 * 60 * 60 < x | _ \<Rightarrow> False)"

definition retained :: "real \<Rightarrow> message list option \<Rightarrow> message list option" where
  "retained now q =
     (case q of
        None \<Rightarrow> None
      | Some ms \<Rightarrow>
          (if filter (within_retention now) ms = [] then None
           else Some (filter (within_retention now) ms)))"

text \<open>
  The queues as the manager builds them: one entry per user, and every queued message
  carries a numeric timestamp (the only code that queues a message is
  \<^verbatim>\<open>_handle_redis_event\<close>, which stamps it with the loop clock).
\<close>

definition numeric_timestamp :: "message \<Rightarrow> bool" where
  "numeric_timestamp m = (case map_of m ''timestamp'' of Some (PNum x) \<Rightarrow> True | _ \<Rightarrow> False)"

definition queue_wf :: "(user_id \<times> message list) list \<Rightarrow> bool" where
  "queue_wf q = (distinct (map fst q) \<and> list_all (\<lambda>(u, ms). list_all numeric_timestamp ms) q)"

definition numeric_queue :: "(user_id \<times> message list) list \<Rightarrow> bool" where
  "numeric_queue q = (\<forall>u ms. map_of q u = Some ms \<longrightarrow> list_all numeric_timestamp ms)"

text \<open>
  The event is addressed to the user \<open>v\<close> and to no role, and \<open>v\<close> has no entry in
  \<open>user_connections\<close>.
\<close>

definition offline_target :: "event_data \<Rightarrow> world \<Rightarrow> user_id \<Rightarrow> bool" where
  "offline_target ev s v =
     (\<not> truthy_str (ev_target_role ev) \<and> ev_user_id ev = Some v \<and> v \<noteq> []
      \<and> \<not> has_key v (user_connections s))"

section \<open>Example states\<close>

text \<open>
  A manager with one registered connection \<^verbatim>\<open>c1\<close> on a live transport; the wall
  clock advances by a millisecond per reading.
\<close>

definition one_connection :: world where
  "one_connection =
     (fresh_world [] (\<lambda>i. 1000 * int i) (\<lambda>i. 0) (\<lambda>i. ''token''))
       \<lparr>active_connections := [(''c1'', 1)]\<rparr>"

text \<open>
  Two registered connections, \<^verbatim>\<open>c1\<close> first; the transport of \<^verbatim>\<open>c1\<close> raises
  on every write, the transport of \<^verbatim>\<open>c2\<close> is live.
\<close>

definition two_connections :: world where
  "two_connections =
     (fresh_world [1] (\<lambda>i. 1000 * int i) (\<lambda>i. 0) (\<lambda>i. ''token''))
       \<lparr>active_connections := [(''c1'', 1), (''c2'', 2)]\<rparr>"

text \<open>
  The manager after user \<^verbatim>\<open>u1\<close> has connected as \<^verbatim>\<open>c1\<close> with the role
  \<^verbatim>\<open>recruiter\<close> on a live transport.
\<close>

definition after_connect :: world where
  "after_connect =
     (case connect 1 ''c1'' (Some ''u1'') (Some ''recruiter'')
             (fresh_world [] (\<lambda>i. 1000 * int i) (\<lambda>i. 0) (\<lambda>i. ''token''))
      of Inr s \<Rightarrow> s | Inl e \<Rightarrow> fresh_world [] (\<lambda>i. 0) (\<lambda>i. 0) (\<lambda>i. []))"

text \<open>
  A polling session registered at the instant 0, seen when the wall clock stands 25
  hours later and advances by a microsecond per reading.
\<close>

definition old_session :: world where
  "old_session =
     (fresh_world [] (\<lambda>i. 25 * 60 * 60 * 1000000 + int i) (\<lambda>i. 0) (\<lambda>i. ''token''))
       \<lparr>active_polls := [(''poll_u1_job_0'',
            \<lparr>poll_user_id = ''u1'', poll_type = ''job'', last_poll = 0, interval = 60,
             last_update_id = None\<rparr>)]\<rparr>"

text \<open>
  The manager after the connection \<^verbatim>\<open>c1\<close> of user \<^verbatim>\<open>u1\<close> was lost and its
  session snapshot stored.
\<close>

definition lost_connection :: world where
  "lost_connection =
     after_connect
       \<lparr>active_connections := [],
        session_state :=
          [(''c1'', \<lparr>last_message = [(''type'', PStr ''job_update'')], disconnected_at = 4000,
                    ss_user_id = ''u1'', ss_role = Some ''recruiter''\<rparr>)]\<rparr>"

text \<open>
  A polling session of user \<^verbatim>\<open>u1\<close> for applications with no watermark yet, and the
  applications collection at two consecutive ticks: two documents, then a third one.
\<close>

definition polling_world :: world where
  "polling_world =
     (fresh_world [] (\<lambda>i. 1000 * int i) (\<lambda>i. 0) (\<lambda>i. ''token''))
       \<lparr>active_polls := [(''poll_u1_application_0'',
            \<lparr>poll_user_id = ''u1'', poll_type = ''application'', last_poll = 0, interval = 30,
             last_update_id = None\<rparr>)]\<rparr>"

definition application_doc :: "string \<Rightarrow> string \<Rightarrow> doc" where
  "application_doc i st =
     \<lparr>doc_id = i,
      doc_fields = [(''user_id'', PStr ''u1''), (''job_id'', PStr ''j1''), (''status'', PStr st)]\<rparr>"

definition first_db :: database where
  "first_db = \<lparr>interview_sessions = [], applications = [application_doc ''a2'' ''shortlisted'', application_doc ''a1'' ''submitted''],
               jobs = [], system_updates = []\<rparr>"

definition second_db :: database where
  "second_db = \<lparr>interview_sessions = [],
                applications = [application_doc ''a3'' ''rejected'', application_doc ''a2'' ''shortlisted'', application_doc ''a1'' ''submitted''],
                jobs = [], system_updates = []\<rparr>"

text \<open>
  A manager with no connection at all, whose loop clock advances by a millisecond per
  reading, and an event addressed to the user \<^verbatim>\<open>u1\<close>.
\<close>

definition quiet_world :: world where
  "quiet_world = fresh_world [] (\<lambda>i. 1000 * int i) (\<lambda>i. real i / 1000) (\<lambda>i. ''token'')"

definition notice_event :: event_data where
  "notice_event =
     \<lparr>ev_event_type = Some ''notice'', ev_job_id = PNone, ev_user_id = Some ''u1'',
      ev_target_role = None, ev_payload = []\<rparr>"

text \<open>The queues after \<open>k\<close> such events, handled two clock readings apart.\<close>

definition notice_queue :: "nat \<Rightarrow> (user_id \<times> message list) list" where
  "notice_queue k =
     (if k = 0 then []
      else [(''u1'', map (\<lambda>i. event_message notice_event (real (2 * i) / 1000)) [0..<k])])"

section \<open>Properties that frame the operations\<close>

lemmas send_defs =
  send_personal_message_def check_rate_limit_def bucket_step_def datetime_now_def
  stamp_def has_key_def append_history_def history_limit_def max_messages_per_minute_def
  tokens_to_add_def disconnect_def fresh_world_def Let_def

lemma wire_disconnect [simp]: "wire (disconnect cid uid s) = wire s"
  by (simp add: disconnect_def Let_def split: option.splits)

lemma wire_check_rate_limit [simp]: "wire (snd (check_rate_limit cid s)) = wire s"
  by (simp add: check_rate_limit_def datetime_now_def Let_def split: prod.splits)

lemma wire_start_polling [simp]: "wire (snd (start_polling u pt s)) = wire s"
  by (simp add: start_polling_def datetime_now_def Let_def split: prod.splits option.splits)

lemma wire_fallback [simp]: "wire (handle_disconnect_with_fallback cid m s) = wire s"
proof -
  have "wire s3 = wire s" if "start_polling u pt (s2::world) = (r, s3)" "wire s2 = wire s" for u pt s2 r s3
    using that wire_start_polling[of u pt s2] by simp
  then show ?thesis
    by (auto simp add: handle_disconnect_with_fallback_def datetime_now_def Let_def
        split: prod.splits option.splits sum.splits)
qed

lemma wire_stamp [simp]: "wire (snd (stamp m s)) = wire s"
  by (simp add: stamp_def datetime_now_def Let_def split: prod.splits)

section \<open>The message history of a connection\<close>

lemma length_append_history: "length (append_history m h) \<le> history_limit"
  by (simp add: append_history_def Let_def history_limit_def)

lemma append_history_recent:
  "append_history m h = drop (length (h @ [m]) - history_limit) (h @ [m])"
  by (simp add: append_history_def Let_def)

text \<open>
  C10. A call of \<^verbatim>\<open>send_personal_message\<close> that puts a frame on the wire is a
  successful send. After it, the history of the connection is the old history with
  the sent message appended, cut to its last \<open>history_limit = 100\<close> entries: at most
  100 messages, the most recent ones, the oldest trimmed first.
\<close>

theorem send_keeps_recent_history:
  assumes "send_personal_message message cid rf s = (m, s')" and "wire s' \<noteq> wire s"
  shows "\<exists>ws old. map_of (active_connections s') cid = Some ws
           \<and> wire s' = wire s @ [(ws, m)]
           \<and> old = (case map_of (message_history s) cid of None \<Rightarrow> [] | Some h \<Rightarrow> h)
           \<and> map_of (message_history s') cid = Some (drop (length (old @ [m]) - history_limit) (old @ [m]))
           \<and> length (drop (length (old @ [m]) - history_limit) (old @ [m])) \<le> history_limit"
proof -
  obtain ok s1 where c: "check_rate_limit cid s = (ok, s1)" by (cases "check_rate_limit cid s")
  have w1: "wire s1 = wire s" using wire_check_rate_limit[of cid s] c by simp
  show ?thesis
  proof (cases "ok \<and> map_of (active_connections s1) cid \<noteq> None")
    case False
    then have "wire s' = wire s"
      using assms(1) c w1 by (auto simp add: send_personal_message_def split: if_splits)
    with assms(2) show ?thesis by simp
  next
    case True
    then obtain ws where ws: "map_of (active_connections s1) cid = Some ws" and ok: ok by auto
    obtain m1 s2 where st: "stamp message s1 = (m1, s2)" by (cases "stamp message s1")
    have w2: "wire s2 = wire s" using wire_stamp[of message s1] st w1 by simp
    have live: "ws \<notin> set (dead s2)"
    proof
      assume "ws \<in> set (dead s2)"
      then have "wire s' = wire s"
        using assms(1) c ws ok st w2 by (auto simp add: send_personal_message_def split: if_splits)
      with assms(2) show False by simp
    qed
    have ac: "active_connections s2 = active_connections s1" and mh: "message_history s2 = message_history s1"
      using st by (auto simp add: stamp_def datetime_now_def Let_def split: if_splits prod.splits)
    have mh1: "message_history s1 = message_history s"
      using c by (auto simp add: check_rate_limit_def datetime_now_def disconnect_def Let_def split: if_splits prod.splits)
    from assms(1) c ws ok st live have
      "m = m1" and
      "s' = s2\<lparr>wire := wire s2 @ [(ws, m1)],
                message_history := AList.update cid
                  (append_history m1 (case map_of (message_history s2) cid of None \<Rightarrow> [] | Some h \<Rightarrow> h))
                  (message_history s2)\<rparr>"
      by (auto simp add: send_personal_message_def Let_def)
    then show ?thesis
      using ws ac mh mh1 w2 length_append_history[of m1]
      by (simp add: update_conv' append_history_recent)
  qed
qed

theorem send_keeps_recent_history_witness:
  "wire (snd (send_personal_message [(''type'', PStr ''ping'')] ''c1'' True one_connection))
     \<noteq> wire one_connection
   \<and> map_of (message_history (snd (send_personal_message [(''type'', PStr ''ping'')] ''c1'' True one_connection))) ''c1''
     = Some [[(''type'', PStr ''ping''), (''message_id'', PUuid 0), (''timestamp'', PIso 1000)]]"
proof -
  let ?r = "send_personal_message [(''type'', PStr ''ping'')] ''c1'' True one_connection"
  have e: "?r = (fst ?r, snd ?r)" by simp
  have m: "fst ?r = [(''type'', PStr ''ping''), (''message_id'', PUuid 0), (''timestamp'', PIso 1000)]"
    by (simp add: send_defs one_connection_def)
  have w: "wire (snd ?r) \<noteq> wire one_connection"
    by (simp add: send_defs one_connection_def)
  have h: "message_history one_connection = []"
    by (simp add: one_connection_def fresh_world_def)
  from send_keeps_recent_history[OF e w] show ?thesis
    using w m h by (auto simp add: history_limit_def)
qed

section \<open>Broadcast\<close>

lemmas broadcast_defs = broadcast_def disconnect_def has_key_def fresh_world_def Let_def AList.delete_eq

text \<open>
  C1. With two live registrations, \<^verbatim>\<open>c1\<close> on a transport whose write raises and
  \<^verbatim>\<open>c2\<close> on a sound one, \<^verbatim>\<open>broadcast\<close> removes \<^verbatim>\<open>c1\<close> and then stops:
  the deletion changed the size of the dictionary being iterated, the next step of the
  iteration raises, and \<^verbatim>\<open>c2\<close> gets no frame. The wire stays empty.
\<close>

theorem broadcast_stops_at_failed_write:
  "broadcast [(''type'', PStr ''system_announcement'')] [] two_connections
     = two_connections\<lparr>active_connections := [(''c2'', 2)]\<rparr>
   \<and> wire (broadcast [(''type'', PStr ''system_announcement'')] [] two_connections) = []"
  by (simp add: broadcast_defs two_connections_def)

section \<open>Disconnect leaves the connection out of two indexes\<close>

lemmas connect_defs = connect_def register_user_def welcome_message_def loop_time_def opt_str_def

lemma after_connect_eq:
  "after_connect =
     (fresh_world [] (\<lambda>i. 1000 * int i) (\<lambda>i. 0) (\<lambda>i. ''token''))
       \<lparr>active_connections := [(''c1'', 1)],
        user_connections := [(''u1'', [''c1''])],
        connection_roles := [(''c1'', ''recruiter'')],
        connection_health := [(''c1'', \<lparr>connected_at = 0, last_ping = None, ping_count = 0, latency_ms = []\<rparr>)],
        message_history := [(''c1'', [[(''type'', PStr ''connection_established''), (''connection_id'', PStr ''c1''),
              (''reconnect_token'', PStr ''token''), (''message'', PStr ''Connected to real-time updates''),
              (''message_id'', PUuid 0), (''timestamp'', PIso 1000)]])],
        reconnect_tokens := [(''u1'', ''token'')],
        rate_limits := [(''c1'', \<lparr>tokens = 120, last_update = 0, warnings = 0\<rparr>)],
        wire := [(1, [(''type'', PStr ''connection_established''), (''connection_id'', PStr ''c1''),
              (''reconnect_token'', PStr ''token''), (''message'', PStr ''Connected to real-time updates''),
              (''message_id'', PUuid 0), (''timestamp'', PIso 1000)])],
        wall_reads := 2, loop_reads := 1, uuid_draws := 1, token_draws := 1\<rparr>"
  by (simp add: after_connect_def connect_defs send_defs)

lemma not_has_key_delete [simp]: "\<not> has_key k (AList.delete k al)"
  by (simp add: has_key_def delete_conv')

lemma disconnect_active: "\<not> has_key cid (active_connections (disconnect cid uid s))"
  by (simp add: disconnect_def Let_def has_key_def delete_conv' split: option.splits)

lemma disconnect_None_idle: "\<not> has_key cid (active_connections t) \<Longrightarrow> disconnect cid None t = t"
  by (simp add: disconnect_def)

lemma disconnect_Some:
  "disconnect cid (Some u) t =
     (let t1 = disconnect cid None t
      in case map_of (user_connections t) u of
           None \<Rightarrow> t1
         | Some conns \<Rightarrow>
             if u = [] then t1
             else if removeAll cid conns = []
             then t1\<lparr>user_connections := AList.delete u (user_connections t)\<rparr>
             else t1\<lparr>user_connections := AList.update u (removeAll cid conns) (user_connections t)\<rparr>)"
  by (cases "has_key cid (active_connections t)") (simp_all add: disconnect_def Let_def split: option.splits)

lemma disconnect_idem: "disconnect cid uid (disconnect cid uid s) = disconnect cid uid s"
proof (cases uid)
  case None
  then show ?thesis using disconnect_active[of cid None s] by (simp add: disconnect_None_idle)
next
  case u: (Some u)
  define s1 where "s1 = disconnect cid None s"
  have a: "\<not> has_key cid (active_connections s1)"
    unfolding s1_def by (rule disconnect_active)
  have uc: "user_connections s1 = user_connections s"
    unfolding s1_def by (simp add: disconnect_def Let_def)
  have b: "disconnect cid None (s1\<lparr>user_connections := x\<rparr>) = s1\<lparr>user_connections := x\<rparr>" for x
    using a by (simp add: disconnect_None_idle)
  show ?thesis
  proof (cases "map_of (user_connections s) u")
    case None
    then show ?thesis unfolding u using a uc
      by (simp add: disconnect_Some s1_def[symmetric] disconnect_None_idle)
  next
    case (Some conns)
    show ?thesis
    proof (cases "u = []")
      case True
      then show ?thesis unfolding u using a uc Some
        by (simp add: disconnect_Some s1_def[symmetric] disconnect_None_idle)
    next
      case False
      show ?thesis
      proof (cases "removeAll cid conns = []")
        case True
        then show ?thesis unfolding u using a uc Some \<open>u \<noteq> []\<close> b
          by (simp add: disconnect_Some s1_def[symmetric] delete_conv')
      next
        case False
        then show ?thesis unfolding u using a uc Some \<open>u \<noteq> []\<close> b
          by (simp add: disconnect_Some s1_def[symmetric] update_conv')
      qed
    qed
  qed
qed

lemma disconnect_user_gone:
  "u \<noteq> [] \<Longrightarrow>
     (case map_of (user_connections (disconnect cid (Some u) s)) u of
        None \<Rightarrow> True
      | Some conns \<Rightarrow> cid \<notin> set conns \<and> conns \<noteq> [])"
proof -
  assume u: "u \<noteq> []"
  have uc: "user_connections (disconnect cid None s) = user_connections s"
    by (simp add: disconnect_def Let_def)
  show ?thesis
  proof (cases "map_of (user_connections s) u")
    case None
    then show ?thesis using uc by (simp add: disconnect_Some)
  next
    case (Some conns)
    then show ?thesis using uc u
      by (cases "removeAll cid conns = []") (simp_all add: disconnect_Some delete_conv' update_conv')
  qed
qed

lemma disconnect_frame:
  "connection_roles (disconnect cid uid s) = connection_roles s
   \<and> connection_health (disconnect cid uid s) = connection_health s
   \<and> rate_limits (disconnect cid uid s) = rate_limits s"
  by (simp add: disconnect_def Let_def split: option.splits)

text \<open>
  C5, as stated, fails: after user \<^verbatim>\<open>u1\<close> has connected as \<^verbatim>\<open>c1\<close> and
  \<^verbatim>\<open>disconnect("c1", "u1")\<close> has run, the role, health and rate-limit dictionaries
  still hold an entry for \<^verbatim>\<open>c1\<close>.
\<close>

theorem disconnect_keeps_roles_health_limits:
  "has_key ''c1'' (connection_roles (disconnect ''c1'' (Some ''u1'') after_connect))
   \<and> has_key ''c1'' (connection_health (disconnect ''c1'' (Some ''u1'') after_connect))
   \<and> has_key ''c1'' (rate_limits (disconnect ''c1'' (Some ''u1'') after_connect))"
  by (simp add: after_connect_eq disconnect_def has_key_def fresh_world_def AList.delete_eq)

text \<open>
  C5, amended. After \<^verbatim>\<open>disconnect(connection_id, user_id)\<close> the connection has no
  entry in \<open>active_connections\<close>; when a non-empty user id is passed, that user's set
  no longer contains the connection, and the user has no entry once the set is empty;
  the role, health and rate-limit dictionaries are as they were; and running the same
  disconnect again changes nothing.
\<close>

theorem disconnect_effect:
  "\<not> has_key cid (active_connections (disconnect cid uid s))
   \<and> (case uid of
        None \<Rightarrow> True
      | Some u \<Rightarrow>
          u = [] \<or> (case map_of (user_connections (disconnect cid uid s)) u of
                      None \<Rightarrow> True
                    | Some conns \<Rightarrow> cid \<notin> set conns \<and> conns \<noteq> []))
   \<and> connection_roles (disconnect cid uid s) = connection_roles s
   \<and> connection_health (disconnect cid uid s) = connection_health s
   \<and> rate_limits (disconnect cid uid s) = rate_limits s
   \<and> disconnect cid uid (disconnect cid uid s) = disconnect cid uid s"
proof -
  have "case uid of
        None \<Rightarrow> True
      | Some u \<Rightarrow>
          u = [] \<or> (case map_of (user_connections (disconnect cid uid s)) u of
                      None \<Rightarrow> True
                    | Some conns \<Rightarrow> cid \<notin> set conns \<and> conns \<noteq> [])"
  proof (cases uid)
    case None then show ?thesis by simp
  next
    case (Some u)
    then show ?thesis using disconnect_user_gone[of u cid s] by (cases "u = []") simp_all
  qed
  then show ?thesis
    using disconnect_active[of cid uid s] disconnect_frame[of cid uid s] disconnect_idem[of cid uid s]
    by simp
qed

theorem disconnect_effect_witness:
  "\<not> has_key ''c1'' (active_connections (disconnect ''c1'' (Some ''u1'') after_connect))
   \<and> map_of (user_connections (disconnect ''c1'' (Some ''u1'') after_connect)) ''u1'' = None
   \<and> connection_roles (disconnect ''c1'' (Some ''u1'') after_connect) = [(''c1'', ''recruiter'')]
   \<and> disconnect ''c1'' (Some ''u1'') (disconnect ''c1'' (Some ''u1'') after_connect)
       = disconnect ''c1'' (Some ''u1'') after_connect"
proof -
  have u: "map_of (user_connections (disconnect ''c1'' (Some ''u1'') after_connect)) ''u1'' = None"
    by (simp add: after_connect_eq disconnect_def has_key_def fresh_world_def AList.delete_eq)
  have r: "connection_roles after_connect = [(''c1'', ''recruiter'')]"
    by (simp add: after_connect_eq fresh_world_def)
  from disconnect_effect[of "''c1''" "Some ''u1''" after_connect] show ?thesis
    using u r by simp
qed

section \<open>The age of a polling session\<close>

lemmas tick_defs = poll_tick_def get_updates_def datetime_now_def max_poll_age_def stop_polling_def
  has_key_def fresh_world_def Let_def

text \<open>
  C8. A session registered 25 hours ago takes a tick. The tick stores the present
  instant in \<^verbatim>\<open>last_poll\<close> and then compares the next reading of the clock with
  that very instant: the difference is a microsecond, not 25 hours. The loop goes to
  sleep and the session stays registered.
\<close>

theorem old_session_keeps_polling:
  "fst (poll_tick ''poll_u1_job_0'' None (\<lambda>us. True) old_session) = ([], Sleeping)
   \<and> map_of (active_polls (snd (poll_tick ''poll_u1_job_0'' None (\<lambda>us. True) old_session))) ''poll_u1_job_0''
     = Some \<lparr>poll_user_id = ''u1'', poll_type = ''job'', last_poll = 25 * 60 * 60 * 1000000, interval = 60,
             last_update_id = None\<rparr>"
  by (simp add: tick_defs old_session_def)

section \<open>Inbound frames\<close>

lemma unparseable_frame_is_skipped:
  "receive_loop cid uid ws (Text None # fs) s = receive_loop cid uid ws fs s"
  by simp

text \<open>
  C9. The client sends the text \<^verbatim>\<open>[]\<close>, which is JSON but no message of a
  documented shape, and then a pong. The first frame ends the loop through the outer
  handler: the transport is closed and the pong is never read.
\<close>

theorem json_array_frame_closes_connection:
  "receive_loop ''c1'' ''u1'' 1
     [Text (Some (PList [])), Text (Some (PDict [(''type'', PStr ''pong''), (''ping_timestamp'', PNum 0)]))]
     one_connection
   = (Closed AttributeError, one_connection\<lparr>closed := [1]\<rparr>)"
  by (simp add: one_connection_def fresh_world_def)

section \<open>Reconnect\<close>

lemma find_SomeD: "find P xs = Some x \<Longrightarrow> x \<in> set xs \<and> P x"
  by (induction xs) (auto split: if_splits)

text \<open>
  C3. When the token stored for the user is not the empty string (every token the
  manager stores comes from \<^verbatim>\<open>secrets.token_urlsafe(32)\<close>), the reconnect request
  succeeds exactly when the supplied token equals the stored one and a session
  snapshot of the user exists; any other token, or no stored token, gives 401; the
  right token without a snapshot gives 404; and the two errors differ.
\<close>

theorem reconnect_session_outcomes:
  assumes "map_of (reconnect_tokens s) U \<noteq> Some []"
  shows "((\<exists>r. reconnect_session U T role s = Inr r)
            \<longleftrightarrow> (map_of (reconnect_tokens s) U = Some T
                 \<and> (\<exists>st \<in> set (map snd (session_state s)). ss_user_id st = U)))
       \<and> (map_of (reconnect_tokens s) U \<noteq> Some T
            \<longrightarrow> reconnect_session U T role s = Inl (HTTPException 401 ''Invalid reconnect token''))
       \<and> (map_of (reconnect_tokens s) U = Some T
            \<and> \<not> (\<exists>st \<in> set (map snd (session_state s)). ss_user_id st = U)
            \<longrightarrow> reconnect_session U T role s = Inl (HTTPException 404 ''Session not found''))
       \<and> HTTPException 401 ''Invalid reconnect token'' \<noteq> HTTPException 404 ''Session not found''"
proof (cases "map_of (reconnect_tokens s) U = Some T")
  case False
  then have "reconnect_session U T role s = Inl (HTTPException 401 ''Invalid reconnect token'')"
    by (simp add: reconnect_session_def Let_def)
  then show ?thesis using False by simp
next
  case True
  with assms have t: "T \<noteq> []" by auto
  have tr: "truthy_str (map_of (reconnect_tokens s) U)"
    using True t by (simp add: truthy_str_def)
  show ?thesis
  proof (cases "find (\<lambda>st. ss_user_id st = U) (map snd (session_state s))")
    case None
    then have n: "\<not> (\<exists>st \<in> set (map snd (session_state s)). ss_user_id st = U)"
      by (simp add: find_None_iff)
    have "reconnect_session U T role s = Inl (HTTPException 404 ''Session not found'')"
      using True tr None by (simp add: reconnect_session_def Let_def)
    then show ?thesis using True n by simp
  next
    case (Some st)
    from find_SomeD[OF Some] have e: "\<exists>st \<in> set (map snd (session_state s)). ss_user_id st = U"
      by blast
    have "\<exists>r. reconnect_session U T role s = Inr r"
      using True tr Some by (simp add: reconnect_session_def Let_def)
    then show ?thesis using True e by simp
  qed
qed

theorem reconnect_session_outcomes_witness:
  "map_of (reconnect_tokens lost_connection) ''u1'' \<noteq> Some []
   \<and> reconnect_session ''u1'' ''token'' None lost_connection
       = Inr \<lparr>rr_status = ''ready_to_reconnect'', rr_user_id = ''u1'', rr_role = Some ''recruiter'',
              rr_last_message = [(''type'', PStr ''job_update'')], rr_disconnected_at = 4000\<rparr>
   \<and> reconnect_session ''u1'' ''other'' None lost_connection
       = Inl (HTTPException 401 ''Invalid reconnect token'')
   \<and> reconnect_session ''u1'' ''token'' None after_connect
       = Inl (HTTPException 404 ''Session not found'')"
proof -
  have a: "map_of (reconnect_tokens lost_connection) ''u1'' \<noteq> Some []"
    and b: "map_of (reconnect_tokens lost_connection) ''u1'' \<noteq> Some ''other''"
    and c: "map_of (reconnect_tokens after_connect) ''u1'' = Some ''token''"
    and d: "session_state after_connect = []"
    by (simp_all add: lost_connection_def after_connect_eq fresh_world_def)
  have a': "map_of (reconnect_tokens after_connect) ''u1'' \<noteq> Some []"
    using c by simp
  have e: "reconnect_session ''u1'' ''token'' None lost_connection
       = Inr \<lparr>rr_status = ''ready_to_reconnect'', rr_user_id = ''u1'', rr_role = Some ''recruiter'',
              rr_last_message = [(''type'', PStr ''job_update'')], rr_disconnected_at = 4000\<rparr>"
    by (simp add: reconnect_session_def lost_connection_def after_connect_eq fresh_world_def truthy_str_def)
  have n: "\<not> (\<exists>st \<in> set (map snd (session_state after_connect)). ss_user_id st = ''u1'')"
    using d by simp
  have h1: "reconnect_session ''u1'' ''other'' None lost_connection
       = Inl (HTTPException 401 ''Invalid reconnect token'')"
    using reconnect_session_outcomes[OF a, of "''other''" None] b by blast
  have h2: "reconnect_session ''u1'' ''token'' None after_connect
       = Inl (HTTPException 404 ''Session not found'')"
    using reconnect_session_outcomes[OF a', of "''token''" None] c n by blast
  show ?thesis using a e h1 h2 by blast
qed

section \<open>The token bucket\<close>

lemma tokens_to_add_nonneg: "0 \<le> e \<Longrightarrow> tokens_to_add e = e div 500000"
  by (simp add: tokens_to_add_def max_messages_per_minute_def Let_def)

lemma tokens_to_add_mono: "0 \<le> a \<Longrightarrow> a \<le> b \<Longrightarrow> tokens_to_add a \<le> tokens_to_add b"
  by (simp add: tokens_to_add_nonneg zdiv_mono1)

lemma tokens_to_add_super:
  assumes "0 \<le> a" "0 \<le> b"
  shows "tokens_to_add a + tokens_to_add b \<le> tokens_to_add (a + b)"
proof -
  have e: "(a + b) div 500000 = a div 500000 + b div 500000 + (a mod 500000 + b mod 500000) div 500000"
    by (rule div_add1_eq)
  have "0 \<le> a mod 500000 + b mod 500000" by simp
  then have "0 \<le> (a mod 500000 + b mod 500000) div 500000"
    by (simp add: pos_imp_zdiv_nonneg_iff)
  with e have "a div 500000 + b div 500000 \<le> (a + b) div 500000" by linarith
  then show ?thesis using assms by (simp add: tokens_to_add_nonneg)
qed

lemma tokens_to_add_ge0: "0 \<le> e \<Longrightarrow> 0 \<le> tokens_to_add e"
  by (simp add: tokens_to_add_nonneg)

lemma tokens_to_add_minute: "0 \<le> e \<Longrightarrow> e \<le> 60000000 \<Longrightarrow> tokens_to_add e \<le> 120"
  using tokens_to_add_mono[of e 60000000] by (simp add: tokens_to_add_nonneg)

lemma bucket_step_cap: "tokens (snd (bucket_step now b)) \<le> max_messages_per_minute"
proof (cases b)
  case None
  then show ?thesis by (simp add: bucket_step_def)
next
  case (Some rd)
  show ?thesis using Some
    by (simp add: bucket_step_def Let_def max_messages_per_minute_def min_def)
qed

lemma allowed_Nil [simp]: "allowed [] b = 0"
  by (simp add: allowed_def)

lemma allowed_Cons:
  "allowed (t # ts) b =
     (if fst (bucket_step t b) then 1 else 0) + allowed ts (Some (snd (bucket_step t b)))"
  by (simp add: allowed_def split: prod.splits)

lemma bucket_step_Some:
  "bucket_step t (Some rd) =
     (let k = min 120 (tokens rd + tokens_to_add (t - last_update rd))
      in if 0 < k then (True, \<lparr>tokens = k - 1, last_update = t, warnings = warnings rd\<rparr>)
         else (False, \<lparr>tokens = k, last_update = t, warnings = warnings rd + 1\<rparr>))"
  by (simp add: bucket_step_def Let_def max_messages_per_minute_def)

lemma allowed_bound:
  "sorted (l # ts) \<Longrightarrow> 0 \<le> tokens rd \<Longrightarrow> last_update rd = l \<Longrightarrow>
     int (allowed ts (Some rd)) \<le> tokens rd + tokens_to_add (last (l # ts) - l)"
proof (induction ts arbitrary: rd l)
  case Nil
  then show ?case by (simp add: tokens_to_add_nonneg)
next
  case (Cons t ts)
  let ?L = "last (t # ts)"
  have lt: "l \<le> t" and st: "sorted (t # ts)" using Cons.prems(1) by auto
  have tL: "t \<le> ?L" using st by (cases ts) (auto)
  define k where "k = min 120 (tokens rd + tokens_to_add (t - l))"
  have k0: "0 \<le> k" using Cons.prems(2) lt tokens_to_add_ge0[of "t - l"] by (simp add: k_def)
  have kle: "k \<le> tokens rd + tokens_to_add (t - l)" by (simp add: k_def)
  have sup: "tokens_to_add (t - l) + tokens_to_add (?L - t) \<le> tokens_to_add (?L - l)"
    using tokens_to_add_super[of "t - l" "?L - t"] lt tL by simp
  show ?case
  proof (cases "0 < k")
    case True
    let ?rd' = "\<lparr>tokens = k - 1, last_update = t, warnings = warnings rd\<rparr>"
    have bs: "bucket_step t (Some rd) = (True, ?rd')"
      using True Cons.prems(3) by (simp add: bucket_step_Some k_def Let_def)
    have "int (allowed ts (Some ?rd')) \<le> tokens ?rd' + tokens_to_add (?L - t)"
      by (rule Cons.IH[OF st]) (use True in simp_all)
    then have "int (allowed (t # ts) (Some rd)) \<le> k + tokens_to_add (?L - t)"
      by (simp add: allowed_Cons bs)
    then show ?thesis using kle sup by simp
  next
    case False
    then have kz: "k = 0" using k0 by simp
    let ?rd' = "\<lparr>tokens = k, last_update = t, warnings = warnings rd + 1\<rparr>"
    have bs: "bucket_step t (Some rd) = (False, ?rd')"
      using False Cons.prems(3) by (simp add: bucket_step_Some k_def Let_def)
    have "int (allowed ts (Some ?rd')) \<le> tokens ?rd' + tokens_to_add (?L - t)"
      by (rule Cons.IH[OF st]) (use kz in simp_all)
    then have "int (allowed (t # ts) (Some rd)) \<le> k + tokens_to_add (?L - t)"
      by (simp add: allowed_Cons bs)
    then show ?thesis using kle sup by simp
  qed
qed

lemma bucket_step_good:
  assumes "good_bucket b t"
  shows "0 \<le> tokens (snd (bucket_step t b))
       \<and> last_update (snd (bucket_step t b)) = t
       \<and> (if fst (bucket_step t b) then 1 else 0) + tokens (snd (bucket_step t b))
            \<le> (if b = None then 121 else 120)"
proof (cases b)
  case None
  then show ?thesis by (simp add: bucket_step_def max_messages_per_minute_def)
next
  case (Some rd)
  define k where "k = min 120 (tokens rd + tokens_to_add (t - last_update rd))"
  have "0 \<le> tokens rd" "0 \<le> t - last_update rd"
    using assms Some by (simp_all add: good_bucket_def)
  then have k0: "0 \<le> k" using tokens_to_add_ge0[of "t - last_update rd"] by (simp add: k_def)
  have k120: "k \<le> 120" by (simp add: k_def)
  show ?thesis
  proof (cases "0 < k")
    case True
    then show ?thesis using Some k120 by (simp add: bucket_step_Some k_def[symmetric] Let_def)
  next
    case False
    then show ?thesis using Some k0 by (simp add: bucket_step_Some k_def[symmetric] Let_def)
  qed
qed

lemma snd_bucket_run_Cons:
  "snd (bucket_run (t # ts) b) = snd (bucket_run ts (Some (snd (bucket_step t b))))"
  by (simp split: prod.splits)

lemma bucket_run_good:
  "sorted ts \<Longrightarrow> ts \<noteq> [] \<Longrightarrow> good_bucket b (hd ts) \<Longrightarrow>
     \<exists>rd. snd (bucket_run ts b) = Some rd \<and> 0 \<le> tokens rd \<and> last_update rd = last ts"
proof (induction ts arbitrary: b)
  case Nil
  then show ?case by simp
next
  case (Cons t ts)
  let ?rd = "snd (bucket_step t b)"
  have g: "0 \<le> tokens ?rd \<and> last_update ?rd = t"
    using bucket_step_good[of b t] Cons.prems(3) by simp
  show ?case
  proof (cases "ts = []")
    case True
    then show ?thesis unfolding snd_bucket_run_Cons using g by simp
  next
    case False
    have "t \<le> hd ts" using Cons.prems(1) False by (cases ts) auto
    then have "good_bucket (Some ?rd) (hd ts)" using g by (simp add: good_bucket_def)
    moreover have "sorted ts" using Cons.prems(1) by simp
    ultimately obtain rd where "snd (bucket_run ts (Some ?rd)) = Some rd" "0 \<le> tokens rd"
        "last_update rd = last ts"
      using Cons.IH[OF _ False] by blast
    then show ?thesis unfolding snd_bucket_run_Cons using False by simp
  qed
qed

lemma allowed_from_good:
  assumes "sorted (t # ts)" "good_bucket b t"
  shows "int (allowed (t # ts) b)
           \<le> (if b = None then 121 else 120) + tokens_to_add (last (t # ts) - t)"
proof -
  let ?rd = "snd (bucket_step t b)"
  have g: "0 \<le> tokens ?rd" "last_update ?rd = t"
     and c: "(if fst (bucket_step t b) then 1 else 0) + tokens ?rd \<le> (if b = None then 121 else 120)"
    using bucket_step_good[OF assms(2)] by simp_all
  have "int (allowed ts (Some ?rd)) \<le> tokens ?rd + tokens_to_add (last (t # ts) - t)"
    by (rule allowed_bound[OF assms(1) g])
  moreover have "int (allowed (t # ts) b)
      = (if fst (bucket_step t b) then 1 else 0) + int (allowed ts (Some ?rd))"
    by (simp add: allowed_Cons)
  ultimately show ?thesis using c by linarith
qed

lemma rate_limits_disconnect [simp]: "rate_limits (disconnect cid uid s) = rate_limits s"
  by (simp add: disconnect_def Let_def split: option.splits)

lemma check_rate_limit_bucket:
  "fst (check_rate_limit cid s)
     = fst (bucket_step (wall_clock s (wall_reads s)) (map_of (rate_limits s) cid))
   \<and> map_of (rate_limits (snd (check_rate_limit cid s))) cid
     = Some (snd (bucket_step (wall_clock s (wall_reads s)) (map_of (rate_limits s) cid)))
   \<and> (c \<noteq> cid \<longrightarrow> map_of (rate_limits (snd (check_rate_limit cid s))) c = map_of (rate_limits s) c)"
  by (simp add: check_rate_limit_def datetime_now_def Let_def update_conv' split: prod.splits)

lemma burst_from_bucket:
  "0 \<le> tokens rd \<Longrightarrow> tokens rd \<le> 120 \<Longrightarrow> last_update rd = t \<Longrightarrow>
     allowed (replicate n t) (Some rd) = min n (nat (tokens rd))"
proof (induction n arbitrary: rd)
  case 0
  then show ?case by simp
next
  case (Suc n)
  have k: "min 120 (tokens rd + tokens_to_add (t - last_update rd)) = tokens rd"
    using Suc.prems by (simp add: tokens_to_add_nonneg)
  show ?case
  proof (cases "0 < tokens rd")
    case True
    let ?rd = "\<lparr>tokens = tokens rd - 1, last_update = t, warnings = warnings rd\<rparr>"
    have bs: "bucket_step t (Some rd) = (True, ?rd)"
      using k True by (simp add: bucket_step_Some Let_def)
    have "allowed (replicate n t) (Some ?rd) = min n (nat (tokens ?rd))"
      using Suc.IH[of ?rd] True Suc.prems by simp
    then show ?thesis using True bs by (simp add: allowed_Cons)
  next
    case False
    then have z: "tokens rd = 0" using Suc.prems(1) by simp
    let ?rd = "\<lparr>tokens = 0, last_update = t, warnings = warnings rd + 1\<rparr>"
    have bs: "bucket_step t (Some rd) = (False, ?rd)"
      using k z by (simp add: bucket_step_Some Let_def)
    have "allowed (replicate n t) (Some ?rd) = min n (nat (tokens ?rd))"
      using Suc.IH[of ?rd] by simp
    then show ?thesis using z bs by (simp add: allowed_Cons)
  qed
qed

lemma burst_exact: "allowed (replicate n t) None = min n initial_burst"
proof (cases n)
  case 0
  then show ?thesis by simp
next
  case (Suc m)
  let ?rd = "\<lparr>tokens = 120, last_update = t, warnings = 0\<rparr>"
  have bs: "bucket_step t None = (True, ?rd)"
    by (simp add: bucket_step_def max_messages_per_minute_def)
  have "allowed (replicate m t) (Some ?rd) = min m (nat (tokens ?rd))"
    by (rule burst_from_bucket) simp_all
  then show ?thesis using Suc bs
    by (simp add: allowed_Cons initial_burst_def max_messages_per_minute_def)
qed

text \<open>
  C6. Take any run of checks of one connection at non-decreasing instants, from the
  first check of the connection on, and any window \<open>win\<close> of consecutive checks of
  that run spanning at most 60 seconds. The checks allowed in the window number at
  most the capacity (120, what 60 seconds refill) plus the initial burst (121: the
  check that creates the bucket is free, then the 120 tokens of the full bucket).
  After every check the bucket holds at most the capacity. The refill is computed at
  the check from the elapsed time, \<open>elapsed * capacity / 60\<close> seconds, cut to a whole
  number, and the check is allowed exactly when the refilled, capped count is positive.
\<close>

theorem rate_limit_window:
  assumes "sorted (pre @ win)" and "win \<noteq> []" and "last win - hd win \<le> 60 * 1000000"
  shows "allowed win (snd (bucket_run pre None)) \<le> nat max_messages_per_minute + initial_burst
       \<and> (\<forall>now b. tokens (snd (bucket_step now b)) \<le> max_messages_per_minute)
       \<and> (\<forall>e. 0 \<le> e \<longrightarrow> tokens_to_add e = (e * max_messages_per_minute) div (60 * 1000000))
       \<and> (\<forall>now rd. fst (bucket_step now (Some rd))
              \<longleftrightarrow> 0 < min max_messages_per_minute
                          (tokens rd + tokens_to_add (now - last_update rd)))"
proof -
  obtain t ts where w: "win = t # ts" using assms(2) by (cases win) auto
  have sw: "sorted (t # ts)" using assms(1) w by (simp add: sorted_append)
  have g: "good_bucket (snd (bucket_run pre None)) t"
  proof (cases "pre = []")
    case True
    then show ?thesis by (simp add: good_bucket_def)
  next
    case False
    have "sorted pre" using assms(1) by (simp add: sorted_append)
    moreover have "good_bucket None (hd pre)" by (simp add: good_bucket_def)
    ultimately obtain rd where rd: "snd (bucket_run pre None) = Some rd" "0 \<le> tokens rd"
        "last_update rd = last pre"
      using bucket_run_good[OF _ False] by blast
    have "last pre \<le> t" using assms(1) w False by (simp add: sorted_append)
    then show ?thesis using rd by (simp add: good_bucket_def)
  qed
  have span: "last (t # ts) - t \<le> 60000000" using assms(3) w by simp
  have "t \<le> last (t # ts)" using sw by (cases ts) auto
  then have "tokens_to_add (last (t # ts) - t) \<le> 120"
    using span by (intro tokens_to_add_minute) simp_all
  moreover have "int (allowed (t # ts) (snd (bucket_run pre None)))
      \<le> (if snd (bucket_run pre None) = None then 121 else 120) + tokens_to_add (last (t # ts) - t)"
    by (rule allowed_from_good[OF sw g])
  ultimately have "int (allowed win (snd (bucket_run pre None))) \<le> 241"
    using w by (simp split: if_splits)
  then have a: "allowed win (snd (bucket_run pre None)) \<le> nat max_messages_per_minute + initial_burst"
    by (simp add: initial_burst_def max_messages_per_minute_def)
  have b: "\<forall>now b. tokens (snd (bucket_step now b)) \<le> max_messages_per_minute"
    using bucket_step_cap by blast
  have c: "\<forall>e. 0 \<le> e \<longrightarrow> tokens_to_add e = (e * max_messages_per_minute) div (60 * 1000000)"
    by (simp add: tokens_to_add_def Let_def max_messages_per_minute_def)
  have d: "\<forall>now rd. fst (bucket_step now (Some rd))
              \<longleftrightarrow> 0 < min max_messages_per_minute
                          (tokens rd + tokens_to_add (now - last_update rd))"
    by (simp add: bucket_step_Some Let_def max_messages_per_minute_def)
  from a b c d show ?thesis by blast
qed

theorem rate_limit_window_witness:
  "sorted ([0] @ [1000, 500000, 60001000 :: int])
   \<and> last [1000, 500000, 60001000 :: int] - hd [1000, 500000, 60001000] \<le> 60 * 1000000
   \<and> allowed [1000, 500000, 60001000] (snd (bucket_run [0] None)) = 3
   \<and> allowed [1000, 500000, 60001000] (snd (bucket_run [0] None))
        \<le> nat max_messages_per_minute + initial_burst"
proof -
  have a: "sorted ([0] @ [1000, 500000, 60001000 :: int])" by simp
  have b: "[1000, 500000, 60001000 :: int] \<noteq> []" by simp
  have c: "last [1000, 500000, 60001000 :: int] - hd [1000, 500000, 60001000] \<le> 60 * 1000000" by simp
  have d: "allowed [1000, 500000, 60001000] (snd (bucket_run [0] None)) = 3"
    by (simp add: allowed_def bucket_step_def tokens_to_add_def max_messages_per_minute_def Let_def)
  from rate_limit_window[OF a b c] show ?thesis using a c d by simp
qed

section \<open>The watermark of a polling session\<close>

lemma format_update_id:
  "fst (format_update d pt s) = Some u \<Longrightarrow> upd_id u = doc_id d"
  by (auto simp add: format_update_def datetime_now_def Let_def
      split: if_splits option.splits prod.splits)

lemma format_update_polls [simp]:
  "active_polls (snd (format_update d pt s)) = active_polls s"
  by (simp add: format_update_def datetime_now_def Let_def split: prod.splits)

lemma format_all_polls [simp]:
  "active_polls (snd (format_all ds pt s)) = active_polls s"
proof (induction ds arbitrary: s)
  case Nil
  then show ?case by simp
next
  case (Cons d ds)
  obtain r s1 where f: "format_update d pt s = (r, s1)" by (cases "format_update d pt s")
  obtain us s2 where g: "format_all ds pt s1 = (us, s2)" by (cases "format_all ds pt s1")
  have "active_polls s1 = active_polls s" using format_update_polls[of d pt s] f by simp
  moreover have "active_polls s2 = active_polls s1" using Cons.IH[of s1] g by simp
  ultimately show ?case using f g by simp
qed

lemma format_all_ids:
  "set (map upd_id (fst (format_all ds pt s))) \<subseteq> set (map doc_id ds)"
proof (induction ds arbitrary: s)
  case Nil
  then show ?case by simp
next
  case (Cons d ds)
  obtain r s1 where f: "format_update d pt s = (r, s1)" by (cases "format_update d pt s")
  obtain us s2 where g: "format_all ds pt s1 = (us, s2)" by (cases "format_all ds pt s1")
  have ih: "set (map upd_id us) \<subseteq> set (map doc_id ds)" using Cons.IH[of s1] g by simp
  show ?case
  proof (cases r)
    case None
    then show ?thesis using f g ih by auto
  next
    case (Some u)
    then have "upd_id u = doc_id d" using format_update_id[of d pt s u] f by simp
    then show ?thesis using f g ih Some by auto
  qed
qed

lemma format_all_sorted:
  "sorted (map doc_id ds) \<Longrightarrow> sorted (map upd_id (fst (format_all ds pt s)))"
proof (induction ds arbitrary: s)
  case Nil
  then show ?case by simp
next
  case (Cons d ds)
  obtain r s1 where f: "format_update d pt s = (r, s1)" by (cases "format_update d pt s")
  obtain us s2 where g: "format_all ds pt s1 = (us, s2)" by (cases "format_all ds pt s1")
  have sd: "sorted (map doc_id ds)" and le: "\<forall>x \<in> set (map doc_id ds). doc_id d \<le> x"
    using Cons.prems by auto
  have ih: "sorted (map upd_id us)" using Cons.IH[OF sd, of s1] g by simp
  have sub: "set (map upd_id us) \<subseteq> set (map doc_id ds)" using format_all_ids[of ds pt s1] g by simp
  show ?case
  proof (cases r)
    case None
    then show ?thesis using f g ih by simp
  next
    case (Some u)
    then have "upd_id u = doc_id d" using format_update_id[of d pt s u] f by simp
    then show ?thesis using f g ih Some sub le by auto
  qed
qed

lemma get_updates_polls [simp]:
  "active_polls (snd (get_updates db u pt w s)) = active_polls s"
  by (cases db) (simp_all add: get_updates_def)

lemma get_updates_sorted: "sorted (map upd_id (fst (get_updates db u pt w s)))"
proof (cases db)
  case None
  then show ?thesis by (simp add: get_updates_def)
next
  case (Some d)
  let ?ds = "take 100 (sort_key doc_id (filter (query_matches u pt w) (collection_of pt d)))"
  have "sorted (map doc_id (sort_key doc_id (filter (query_matches u pt w) (collection_of pt d))))"
    by (rule sorted_sort_key)
  then have "sorted (map doc_id ?ds)" by (simp add: take_map[symmetric])
  then show ?thesis using Some format_all_sorted[of ?ds pt s] by (simp add: get_updates_def)
qed

lemma get_updates_ids:
  assumes "x \<in> set (fst (get_updates db u pt w s))"
  shows "\<exists>d dd. db = Some dd \<and> d \<in> set (collection_of pt dd) \<and> doc_id d = upd_id x
           \<and> query_matches u pt w d"
proof (cases db)
  case None
  then show ?thesis using assms by (simp add: get_updates_def)
next
  case (Some dd)
  let ?ds = "take 100 (sort_key doc_id (filter (query_matches u pt w) (collection_of pt dd)))"
  have "upd_id x \<in> set (map upd_id (fst (format_all ?ds pt s)))"
    using assms Some by (simp add: get_updates_def)
  then have "upd_id x \<in> set (map doc_id ?ds)" using format_all_ids[of ?ds pt s] by blast
  then obtain d where d: "d \<in> set ?ds" "doc_id d = upd_id x" by auto
  then have "d \<in> set (sort_key doc_id (filter (query_matches u pt w) (collection_of pt dd)))"
    by (meson in_set_takeD)
  then have "d \<in> set (collection_of pt dd) \<and> query_matches u pt w d" by simp
  then show ?thesis using Some d by blast
qed

lemma get_updates_above:
  assumes "x \<in> set (fst (get_updates db u pt w s))"
  shows "case w of None \<Rightarrow> True | Some v \<Rightarrow> v = [] \<or> v < upd_id x"
proof -
  obtain d where "doc_id d = upd_id x" "query_matches u pt w d"
    using get_updates_ids[OF assms] by blast
  then show ?thesis by (auto simp add: query_matches_def split: option.splits)
qed

lemma sorted_le_last: "sorted xs \<Longrightarrow> x \<in> set xs \<Longrightarrow> x \<le> last xs"
  by (induction xs) auto

lemma poll_tick_unregistered:
  "map_of (active_polls s) pid = None \<Longrightarrow> poll_tick pid db cb s = (([], Stopped), s)"
  by (simp add: poll_tick_def)

lemma poll_tick_updates:
  "map_of (active_polls s) pid = Some p \<Longrightarrow>
     fst (fst (poll_tick pid db cb s))
       = fst (get_updates db (poll_user_id p) (poll_type p) (last_update_id p) s)"
  by (simp add: poll_tick_def datetime_now_def Let_def split: prod.splits)

lemma poll_tick_watermark:
  assumes "map_of (active_polls s) pid = Some p"
    and "us = fst (get_updates db (poll_user_id p) (poll_type p) (last_update_id p) s)"
    and "us = [] \<or> cb us"
    and "map_of (active_polls (snd (poll_tick pid db cb s))) pid = Some p1"
  shows "last_update_id p1
           = (if us \<noteq> [] \<and> upd_id (last us) \<noteq> [] then Some (upd_id (last us)) else last_update_id p)
         \<and> poll_user_id p1 = poll_user_id p \<and> poll_type p1 = poll_type p"
proof -
  obtain s1 where g: "get_updates db (poll_user_id p) (poll_type p) (last_update_id p) s = (us, s1)"
    using assms(2) by (cases "get_updates db (poll_user_id p) (poll_type p) (last_update_id p) s") simp
  define p2 where "p2 = (if us \<noteq> [] \<and> upd_id (last us) \<noteq> []
                           then p\<lparr>last_update_id := Some (upd_id (last us))\<rparr> else p)
                        \<lparr>last_poll := wall_clock s1 (wall_reads s1)\<rparr>"
  define s3 where "s3 = s1\<lparr>wall_reads := Suc (Suc (wall_reads s1)),
                          active_polls := AList.update pid p2 (active_polls s1)\<rparr>"
  have t: "poll_tick pid db cb s =
      (if wall_clock s1 (Suc (wall_reads s1)) - wall_clock s1 (wall_reads s1) > max_poll_age
       then ((us, Stopped), stop_polling pid s3) else ((us, Sleeping), s3))"
    using assms(1,3) g
    by (auto simp add: poll_tick_def datetime_now_def Let_def p2_def s3_def)
  have m3: "map_of (active_polls s3) pid = Some p2"
    by (simp add: s3_def update_conv')
  have "map_of (active_polls (stop_polling pid s3)) pid = None"
    using m3 by (simp add: stop_polling_def has_key_def delete_conv')
  then have "p1 = p2" using assms(4) t m3 by (simp split: if_splits)
  then show ?thesis by (simp add: p2_def)
qed

text \<open>
  C7. Two consecutive ticks of a registered session, the first with a callback that
  returns, on documents whose identifiers are not empty. The identifiers delivered by
  the two ticks are disjoint. After the first tick the watermark of the session is
  unchanged when the tick delivered nothing, and otherwise is the identifier of the
  last update delivered, strictly above the old watermark. Every update of the second
  tick lies strictly above that watermark: nothing at or below it is delivered again.
  The databases of the two ticks are arbitrary, and either access may fail.
\<close>

theorem poll_ticks_do_not_overlap:
  assumes reg: "map_of (active_polls s) pid = Some p"
    and ids: "\<forall>d \<in> set (case db1 of None \<Rightarrow> [] | Some dd \<Rightarrow> collection_of (poll_type p) dd). doc_id d \<noteq> []"
    and cbk: "cb1 (fst (fst (poll_tick pid db1 cb1 s)))"
    and t1: "poll_tick pid db1 cb1 s = ((u1, e1), s1)"
    and t2: "poll_tick pid db2 cb2 s1 = ((u2, e2), s2)"
  shows "set (map upd_id u1) \<inter> set (map upd_id u2) = {}
       \<and> (case map_of (active_polls s1) pid of
            None \<Rightarrow> True
          | Some p1 \<Rightarrow>
              (if u1 = [] then last_update_id p1 = last_update_id p
               else last_update_id p1 = Some (upd_id (last u1))
                    \<and> (case last_update_id p of None \<Rightarrow> True | Some w \<Rightarrow> w < upd_id (last u1)))
              \<and> (\<forall>x \<in> set u2. case last_update_id p1 of None \<Rightarrow> True | Some w \<Rightarrow> w = [] \<or> w < upd_id x))"
proof -
  have u1: "u1 = fst (get_updates db1 (poll_user_id p) (poll_type p) (last_update_id p) s)"
    using poll_tick_updates[OF reg, of db1 cb1] t1 by simp
  have c1: "u1 = [] \<or> cb1 u1" using cbk t1 by simp
  show ?thesis
  proof (cases "map_of (active_polls s1) pid")
    case None
    then have "u2 = []" using poll_tick_unregistered[of s1 pid db2 cb2] t2 by simp
    then show ?thesis using None by simp
  next
    case (Some p1)
    have s1: "snd (poll_tick pid db1 cb1 s) = s1" using t1 by simp
    have w: "last_update_id p1
           = (if u1 \<noteq> [] \<and> upd_id (last u1) \<noteq> [] then Some (upd_id (last u1)) else last_update_id p)"
    proof -
      have m: "map_of (active_polls (snd (poll_tick pid db1 cb1 s))) pid = Some p1"
        using Some s1 by simp
      show ?thesis using poll_tick_watermark[OF reg u1 c1 m] by simp
    qed
    have u2: "u2 = fst (get_updates db2 (poll_user_id p1) (poll_type p1) (last_update_id p1) s1)"
      using poll_tick_updates[OF Some, of db2 cb2] t2 by simp
    have above2: "\<forall>x \<in> set u2. case last_update_id p1 of None \<Rightarrow> True | Some w \<Rightarrow> w = [] \<or> w < upd_id x"
      using get_updates_above[of _ db2 "poll_user_id p1" "poll_type p1" "last_update_id p1" s1] u2
      by blast
    show ?thesis
    proof (cases "u1 = []")
      case True
      then show ?thesis using Some w above2 by simp
    next
      case False
      then have l: "last u1 \<in> set u1" by simp
      obtain d dd where d: "db1 = Some dd" "d \<in> set (collection_of (poll_type p) dd)"
          "doc_id d = upd_id (last u1)"
        using get_updates_ids[of "last u1" db1 "poll_user_id p" "poll_type p" "last_update_id p" s] l u1
        by blast
      then have ne: "upd_id (last u1) \<noteq> []" using ids by auto
      have w1: "last_update_id p1 = Some (upd_id (last u1))" using w False ne by simp
      have ab: "case last_update_id p of None \<Rightarrow> True | Some v \<Rightarrow> v = [] \<or> v < upd_id (last u1)"
        using get_updates_above[of "last u1" db1 "poll_user_id p" "poll_type p" "last_update_id p" s] l u1
        by simp
      have strict: "case last_update_id p of None \<Rightarrow> True | Some v \<Rightarrow> v < upd_id (last u1)"
      proof (cases "last_update_id p")
        case None
        then show ?thesis by simp
      next
        case (Some v)
        show ?thesis
        proof (cases "v = []")
          case True
          then show ?thesis using Some ne by (cases "upd_id (last u1)") simp_all
        next
          case False
          then show ?thesis using Some ab by simp
        qed
      qed
      have srt: "sorted (map upd_id u1)" unfolding u1 by (rule get_updates_sorted)
      have le: "\<forall>x \<in> set u1. upd_id x \<le> upd_id (last u1)"
      proof
        fix x assume "x \<in> set u1"
        then have "upd_id x \<in> set (map upd_id u1)" by simp
        then have "upd_id x \<le> last (map upd_id u1)" using sorted_le_last[OF srt] by blast
        then show "upd_id x \<le> upd_id (last u1)" using False by (simp add: last_map)
      qed
      have gt: "\<forall>y \<in> set u2. upd_id (last u1) < upd_id y"
        using above2 w1 ne by auto
      have disj: "set (map upd_id u1) \<inter> set (map upd_id u2) = {}"
      proof (rule ccontr)
        assume "set (map upd_id u1) \<inter> set (map upd_id u2) \<noteq> {}"
        then obtain x y where "x \<in> set u1" "y \<in> set u2" "upd_id x = upd_id y" by auto
        then show False using le gt by (metis leD)
      qed
      show ?thesis using Some disj w1 strict above2 False by simp
    qed
  qed
qed

lemmas poll_eval_defs = poll_tick_def get_updates_def datetime_now_def max_poll_age_def stop_polling_def
  has_key_def fresh_world_def Let_def query_matches_def collection_of_def format_update_def
  application_doc_def first_db_def second_db_def polling_world_def get_or_def

lemma first_tick_eval:
  "map upd_id (fst (fst (poll_tick ''poll_u1_application_0'' (Some first_db) (\<lambda>us. True) polling_world)))
     = [''a1'', ''a2'']"
  by (simp add: poll_eval_defs)

lemma second_tick_eval:
  "map upd_id (fst (fst (poll_tick ''poll_u1_application_0'' (Some second_db) (\<lambda>us. True)
      (snd (poll_tick ''poll_u1_application_0'' (Some first_db) (\<lambda>us. True) polling_world)))))
     = [''a3'']"
  by (simp add: poll_eval_defs)

lemma first_tick_watermark_eval:
  "map_option last_update_id
     (map_of (active_polls (snd (poll_tick ''poll_u1_application_0'' (Some first_db) (\<lambda>us. True) polling_world)))
        ''poll_u1_application_0'')
     = Some (Some ''a2'')"
  by (simp add: poll_eval_defs)

theorem poll_ticks_do_not_overlap_witness:
  "map upd_id (fst (fst (poll_tick ''poll_u1_application_0'' (Some first_db) (\<lambda>us. True) polling_world)))
     = [''a1'', ''a2'']
   \<and> map upd_id (fst (fst (poll_tick ''poll_u1_application_0'' (Some second_db) (\<lambda>us. True)
        (snd (poll_tick ''poll_u1_application_0'' (Some first_db) (\<lambda>us. True) polling_world)))))
     = [''a3'']
   \<and> set (map upd_id (fst (fst (poll_tick ''poll_u1_application_0'' (Some first_db) (\<lambda>us. True) polling_world))))
       \<inter> set (map upd_id (fst (fst (poll_tick ''poll_u1_application_0'' (Some second_db) (\<lambda>us. True)
        (snd (poll_tick ''poll_u1_application_0'' (Some first_db) (\<lambda>us. True) polling_world))))))
     = {}
   \<and> map_option last_update_id
        (map_of (active_polls (snd (poll_tick ''poll_u1_application_0'' (Some first_db) (\<lambda>us. True) polling_world)))
           ''poll_u1_application_0'')
     = Some (Some ''a2'')"
proof -
  let ?p = "\<lparr>poll_user_id = ''u1'', poll_type = ''application'', last_poll = 0, interval = 30,
             last_update_id = None\<rparr>"
  let ?r1 = "poll_tick ''poll_u1_application_0'' (Some first_db) (\<lambda>us. True) polling_world"
  let ?r2 = "poll_tick ''poll_u1_application_0'' (Some second_db) (\<lambda>us. True) (snd ?r1)"
  have reg: "map_of (active_polls polling_world) ''poll_u1_application_0'' = Some ?p"
    by (simp add: polling_world_def fresh_world_def)
  have ids: "\<forall>d \<in> set (case Some first_db of None \<Rightarrow> [] | Some dd \<Rightarrow> collection_of (poll_type ?p) dd).
               doc_id d \<noteq> []"
    by (simp add: collection_of_def first_db_def application_doc_def)
  have cbk: "(\<lambda>us. True) (fst (fst ?r1))" by simp
  have t1: "?r1 = ((fst (fst ?r1), snd (fst ?r1)), snd ?r1)" by simp
  have t2: "?r2 = ((fst (fst ?r2), snd (fst ?r2)), snd ?r2)" by simp
  from poll_ticks_do_not_overlap[OF reg ids cbk t1 t2]
  have "set (map upd_id (fst (fst ?r1))) \<inter> set (map upd_id (fst (fst ?r2))) = {}"
    by (rule conjunct1)
  then show ?thesis
    using first_tick_eval second_tick_eval first_tick_watermark_eval by blast
qed

section \<open>What sending leaves alone\<close>

lemma untouched_refl [simp]: "untouched s s"
  by (simp add: untouched_def)

lemma untouched_trans: "untouched s s1 \<Longrightarrow> untouched s1 s2 \<Longrightarrow> untouched s s2"
  by (simp add: untouched_def)

lemma untouched_datetime_now: "untouched s (snd (datetime_now s))"
  by (simp add: untouched_def datetime_now_def)

lemma untouched_loop_time: "untouched s (snd (loop_time s))"
  by (simp add: untouched_def loop_time_def)

lemma untouched_disconnect: "untouched s (disconnect cid None s)"
  by (simp add: untouched_def disconnect_def)

lemma untouched_check_rate_limit: "untouched s (snd (check_rate_limit cid s))"
  by (simp add: untouched_def check_rate_limit_def datetime_now_def disconnect_def Let_def
      split: prod.splits)

lemma untouched_start_polling: "untouched s (snd (start_polling u pt s))"
  by (simp add: untouched_def start_polling_def datetime_now_def Let_def split: prod.splits option.splits)

lemma untouched_stamp: "untouched s (snd (stamp m s))"
  by (simp add: untouched_def stamp_def datetime_now_def Let_def split: prod.splits)

lemma untouched_fallback: "untouched s (handle_disconnect_with_fallback cid m s)"
proof (cases "owner_of cid (user_connections s)")
  case None
  then show ?thesis by (simp add: handle_disconnect_with_fallback_def)
next
  case (Some u)
  show ?thesis
  proof (cases "u = []")
    case True
    then show ?thesis using Some by (simp add: handle_disconnect_with_fallback_def)
  next
    case False
    define s2 where "s2 = (snd (datetime_now s))\<lparr>session_state :=
         AList.update cid
           \<lparr>last_message = m, disconnected_at = fst (datetime_now s), ss_user_id = u,
            ss_role = map_of (connection_roles (snd (datetime_now s))) cid\<rparr>
           (session_state (snd (datetime_now s)))\<rparr>"
    have u2: "untouched s s2"
      by (simp add: s2_def untouched_def datetime_now_def)
    show ?thesis
    proof (cases "get_poll_type m")
      case None
      then have "handle_disconnect_with_fallback cid m s = disconnect cid None s2"
        using Some False
        by (simp add: handle_disconnect_with_fallback_def s2_def Let_def case_prod_beta)
      then show ?thesis using u2 untouched_disconnect[of s2 cid] untouched_trans by simp
    next
      case pt: (Some pt)
      obtain r s3 where sp: "start_polling u pt s2 = (r, s3)" by (cases "start_polling u pt s2")
      have u3: "untouched s s3"
        using untouched_start_polling[of s2 u pt] sp u2 untouched_trans by fastforce
      have e: "handle_disconnect_with_fallback cid m s =
          (case r of Inl e \<Rightarrow> s3 | Inr pid \<Rightarrow> disconnect cid None s3)"
        using Some False pt sp[unfolded s2_def]
        by (simp add: handle_disconnect_with_fallback_def Let_def case_prod_beta split: sum.splits)
      show ?thesis
      proof (cases r)
        case (Inl a)
        then show ?thesis using e u3 by simp
      next
        case (Inr b)
        then show ?thesis using e u3 untouched_disconnect[of s3 cid] untouched_trans by simp
      qed
    qed
  qed
qed

lemma untouched_send: "untouched s (snd (send_personal_message m cid rf s))"
proof -
  obtain ok s1 where c: "check_rate_limit cid s = (ok, s1)" by (cases "check_rate_limit cid s")
  have u1: "untouched s s1" using untouched_check_rate_limit[of s cid] c by simp
  show ?thesis
  proof (cases ok)
    case False
    then show ?thesis using c u1 by (simp add: send_personal_message_def)
  next
    case True
    show ?thesis
    proof (cases "map_of (active_connections s1) cid")
      case None
      then show ?thesis
        using c True u1 untouched_fallback[of s1 cid m] untouched_trans
        by (simp add: send_personal_message_def)
    next
      case (Some ws)
      obtain m1 s2 where st: "stamp m s1 = (m1, s2)" by (cases "stamp m s1")
      have u2: "untouched s s2" using untouched_stamp[of s1 m] st u1 untouched_trans by fastforce
      show ?thesis
      proof (cases "ws \<in> set (dead s2)")
        case True
        then show ?thesis
          using c \<open>ok\<close> Some st u2 untouched_fallback[of s2 cid m1] untouched_trans
          by (simp add: send_personal_message_def)
      next
        case False
        have "untouched s2 (s2\<lparr>wire := w, message_history := h\<rparr>)" for w h
          by (simp add: untouched_def)
        then show ?thesis
          using c \<open>ok\<close> Some st u2 False untouched_trans
          by (simp add: send_personal_message_def Let_def)
      qed
    qed
  qed
qed

lemma untouched_send_each: "untouched s (snd (send_each cs m s))"
proof (induction cs arbitrary: m s)
  case Nil
  then show ?case by simp
next
  case (Cons c cs)
  obtain m1 s1 where e: "send_personal_message m c True s = (m1, s1)"
    by (cases "send_personal_message m c True s")
  have a: "untouched s s1" using untouched_send[of s m c True] e by simp
  have "untouched s (snd (send_each cs m1 s1))" by (rule untouched_trans[OF a Cons.IH])
  then show ?case using e by simp
qed

lemma untouched_send_to_user: "untouched s (snd (send_to_user m uid s))"
  by (simp add: send_to_user_def untouched_send_each split: option.splits)

lemma untouched_role_loop: "untouched s (snd (role_loop rs role m s))"
proof (induction rs arbitrary: m s)
  case Nil
  then show ?case by simp
next
  case (Cons p rs)
  obtain cid r where p: "p = (cid, r)" by (cases p)
  show ?case
  proof (cases "r = role \<and> has_key cid (active_connections s)")
    case True
    obtain m1 s1 where e: "send_personal_message m cid True s = (m1, s1)"
      by (cases "send_personal_message m cid True s")
    have a: "untouched s s1" using untouched_send[of s m cid True] e by simp
    have "untouched s (snd (role_loop rs role m1 s1))" by (rule untouched_trans[OF a Cons.IH])
    then show ?thesis using e p True by simp
  next
    case False
    have "role_loop (p # rs) role m s = role_loop rs role m s" unfolding p using False by auto
    then show ?thesis using Cons.IH[of s m] by simp
  qed
qed

lemma untouched_broadcast_to_role: "untouched s (snd (broadcast_to_role m role s))"
  by (simp add: broadcast_to_role_def untouched_role_loop)

lemma untouched_broadcast_loop: "untouched s (snd (broadcast_loop n items m ex s))"
proof (induction items arbitrary: s)
  case Nil
  then show ?case by simp
next
  case (Cons p items)
  obtain cid ws where p: "p = (cid, ws)" by (cases p)
  have a: "untouched s (disconnect cid None s)" by (rule untouched_disconnect)
  have b: "untouched s (s\<lparr>wire := wire s @ [(ws, m)]\<rparr>)" by (simp add: untouched_def)
  have a': "untouched s (snd (broadcast_loop n items m ex (disconnect cid None s)))"
    by (rule untouched_trans[OF a Cons.IH])
  have b': "untouched s (snd (broadcast_loop n items m ex (s\<lparr>wire := wire s @ [(ws, m)]\<rparr>)))"
    by (rule untouched_trans[OF b Cons.IH])
  show ?case unfolding p using Cons.IH[of s] a' b' by simp
qed

lemma untouched_broadcast: "untouched s (broadcast m ex s)"
  by (simp add: broadcast_def untouched_broadcast_loop)

lemma untouched_typed: "untouched s (handle_typed_update ty job uid st data s)"
proof -
  obtain t s1 where l: "loop_time s = (t, s1)" by (cases "loop_time s")
  have a: "untouched s s1" using untouched_loop_time[of s] l by simp
  let ?m = "[(''type'', PStr ty), (''job_id'', job), (''status'', st),
             (''data'', PDict data), (''timestamp'', PNum t)]"
  obtain m1 s2 where e: "send_to_user ?m uid s1 = (m1, s2)" by (cases "send_to_user ?m uid s1")
  have b: "untouched s1 s2" using untouched_send_to_user[of s1 ?m uid] e by simp
  let ?m2 = "AList.update ''candidate_id'' (opt_str uid) m1"
  obtain m2 s3 where f: "broadcast_to_role ?m2 ''recruiter'' s2 = (m2, s3)"
    by (cases "broadcast_to_role ?m2 ''recruiter'' s2")
  have c: "untouched s2 s3" using untouched_broadcast_to_role[of s2 ?m2 "''recruiter''"] f by simp
  have "handle_typed_update ty job uid st data s = s3"
    using l e f by (simp add: handle_typed_update_def Let_def)
  then show ?thesis using untouched_trans[OF a untouched_trans[OF b c]] by simp
qed

lemma untouched_job: "untouched s (handle_job_update job st data s)"
proof -
  obtain t s1 where l: "loop_time s = (t, s1)" by (cases "loop_time s")
  have a: "untouched s s1" using untouched_loop_time[of s] l by simp
  have "untouched s1 (broadcast m [] s1)" for m by (rule untouched_broadcast)
  then show ?thesis using l untouched_trans[OF a]
    by (simp add: handle_job_update_def Let_def)
qed

lemma untouched_dispatch: "untouched s (dispatch_event et ev s)"
  by (simp add: dispatch_event_def handle_interview_update_def handle_application_update_def
      untouched_typed untouched_job)

section \<open>The queue of an offline user\<close>

lemma is_fresh_numeric:
  "numeric_timestamp m \<Longrightarrow> is_fresh c (c - 86400) m = Some (within_retention c m)"
  by (auto simp add: numeric_timestamp_def is_fresh_def within_retention_def
      split: option.splits pyval.splits)

lemma keep_fresh_numeric:
  "list_all numeric_timestamp ms \<Longrightarrow>
     keep_fresh c (c - 86400) ms = Some (filter (within_retention c) ms)"
  by (induction ms) (auto simp add: is_fresh_numeric)

lemma cleanup_loop_map_of:
  "distinct us \<Longrightarrow> numeric_queue q \<Longrightarrow> \<forall>u \<in> set us. map_of q u \<noteq> None \<Longrightarrow>
     map_of (cleanup_loop us c (c - 86400) q) v
       = (if v \<in> set us then retained c (map_of q v) else map_of q v)"
proof (induction us arbitrary: q)
  case Nil
  then show ?case by simp
next
  case (Cons u us)
  obtain ms where ms: "map_of q u = Some ms" using Cons.prems(3) by auto
  have num: "list_all numeric_timestamp ms" using Cons.prems(2) ms by (simp add: numeric_queue_def)
  let ?kept = "filter (within_retention c) ms"
  let ?q = "if ?kept = [] then AList.delete u q else AList.update u ?kept q"
  have step: "cleanup_loop (u # us) c (c - 86400) q = cleanup_loop us c (c - 86400) ?q"
    using ms keep_fresh_numeric[OF num, of c] by simp
  have mq: "map_of ?q w = (if w = u then retained c (Some ms) else map_of q w)" for w
    by (simp add: retained_def delete_conv' update_conv')
  have nq: "numeric_queue ?q"
    unfolding numeric_queue_def
  proof (intro allI impI)
    fix w ws assume a: "map_of ?q w = Some ws"
    show "list_all numeric_timestamp ws"
    proof (cases "w = u")
      case True
      then have "ws = ?kept" using a mq[of w] by (simp add: retained_def split: if_splits)
      then show ?thesis using num by (simp add: list_all_iff)
    next
      case False
      then have "map_of q w = Some ws" using a mq[of w] by simp
      then show ?thesis using Cons.prems(2) by (simp add: numeric_queue_def)
    qed
  qed
  have u: "u \<notin> set us" and d: "distinct us" using Cons.prems(1) by auto
  have keys: "\<forall>w \<in> set us. map_of ?q w \<noteq> None"
  proof
    fix w assume w: "w \<in> set us"
    then have "w \<noteq> u" using u by auto
    then show "map_of ?q w \<noteq> None" using mq[of w] Cons.prems(3) w by simp
  qed
  have ih: "map_of (cleanup_loop us c (c - 86400) ?q) v
       = (if v \<in> set us then retained c (map_of ?q v) else map_of ?q v)"
    by (rule Cons.IH[OF d nq keys])
  show ?case
  proof (cases "v = u")
    case True
    then show ?thesis using ih u step mq[of v] ms by simp
  next
    case False
    then show ?thesis using ih step mq[of v] by simp
  qed
qed

lemma queue_wf_numeric: "queue_wf q \<Longrightarrow> numeric_queue q"
  unfolding queue_wf_def numeric_queue_def
  by (auto simp add: list_all_iff dest!: map_of_SomeD)

lemma cleanup_map_of:
  assumes "queue_wf (message_queue s)"
  shows "map_of (message_queue (cleanup_message_queue s)) v
           = retained (loop_clock s (loop_reads s)) (map_of (message_queue s) v)"
proof -
  let ?q = "message_queue s"
  let ?c = "loop_clock s (loop_reads s)"
  have d: "distinct (map fst ?q)" using assms by (simp add: queue_wf_def)
  have k: "\<forall>u \<in> set (map fst ?q). map_of ?q u \<noteq> None"
    by (simp add: map_of_eq_None_iff)
  have "map_of (cleanup_loop (map fst ?q) ?c (?c - 86400) ?q) v
       = (if v \<in> set (map fst ?q) then retained ?c (map_of ?q v) else map_of ?q v)"
    by (rule cleanup_loop_map_of[OF d queue_wf_numeric[OF assms] k])
  moreover have "v \<notin> set (map fst ?q) \<Longrightarrow> map_of ?q v = None"
    by (simp add: map_of_eq_None_iff)
  ultimately show ?thesis
    by (auto simp add: cleanup_message_queue_def loop_time_def Let_def retained_def)
qed

lemma list_all_update:
  "list_all P al \<Longrightarrow> P (k, v) \<Longrightarrow> list_all P (AList.update k v al)"
  by (induction al) auto

lemma list_all_delete: "list_all P al \<Longrightarrow> list_all P (AList.delete k al)"
  by (simp add: AList.delete_eq list_all_iff)

lemma queue_wf_update:
  "queue_wf q \<Longrightarrow> list_all numeric_timestamp ms \<Longrightarrow> queue_wf (AList.update u ms q)"
  by (simp add: queue_wf_def distinct_update list_all_update)

lemma queue_wf_delete: "queue_wf q \<Longrightarrow> queue_wf (AList.delete u q)"
  by (simp add: queue_wf_def distinct_delete list_all_delete)

lemma queue_wf_entry: "queue_wf q \<Longrightarrow> map_of q u = Some ms \<Longrightarrow> list_all numeric_timestamp ms"
  using queue_wf_numeric[of q] by (simp add: numeric_queue_def)

lemma keep_fresh_subset: "keep_fresh c e ms = Some r \<Longrightarrow> set r \<subseteq> set ms"
proof (induction ms arbitrary: r)
  case Nil
  then show ?case by simp
next
  case (Cons m ms)
  then show ?case by (auto split: option.splits if_splits)
qed

lemma queue_wf_cleanup_loop: "queue_wf q \<Longrightarrow> queue_wf (cleanup_loop us c e q)"
proof (induction us arbitrary: q)
  case Nil
  then show ?case by simp
next
  case (Cons u us)
  show ?case
  proof (cases "map_of q u")
    case None
    then show ?thesis using Cons.prems by simp
  next
    case (Some ms)
    show ?thesis
    proof (cases "keep_fresh c e ms")
      case None
      then show ?thesis using Some Cons.prems by simp
    next
      case kept: (Some kept)
      have "list_all numeric_timestamp ms" by (rule queue_wf_entry[OF Cons.prems Some])
      then have "list_all numeric_timestamp kept"
        using keep_fresh_subset[OF kept] by (auto simp add: list_all_iff)
      then have "queue_wf (if kept = [] then AList.delete u q else AList.update u kept q)"
        using Cons.prems by (simp add: queue_wf_update queue_wf_delete)
      then show ?thesis using Some kept Cons.IH by simp
    qed
  qed
qed

lemma queue_wf_cleanup:
  "queue_wf (message_queue s) \<Longrightarrow> queue_wf (message_queue (cleanup_message_queue s))"
  by (simp add: cleanup_message_queue_def loop_time_def Let_def queue_wf_cleanup_loop)

lemma numeric_event_message: "numeric_timestamp (event_message ev t)"
  by (simp add: numeric_timestamp_def event_message_def)

lemma route_event_queue:
  "map_of (message_queue (route_event msg ev s)) v
     = (if offline_target ev s v
        then Some ((case map_of (message_queue s) v of None \<Rightarrow> [] | Some q \<Rightarrow> q) @ [msg])
        else map_of (message_queue s) v)
   \<and> loop_clock (route_event msg ev s) = loop_clock s
   \<and> (queue_wf (message_queue s) \<longrightarrow> numeric_timestamp msg
        \<longrightarrow> queue_wf (message_queue (route_event msg ev s)))"
proof (cases "truthy_str (ev_target_role ev)")
  case True
  then obtain role where r: "ev_target_role ev = Some role" by (auto simp add: truthy_str_def split: option.splits)
  have "route_event msg ev s = snd (broadcast_to_role msg role s)"
    using True r by (simp add: route_event_def)
  then have "untouched s (route_event msg ev s)" using untouched_broadcast_to_role[of s msg role] by simp
  then show ?thesis using True by (simp add: untouched_def offline_target_def)
next
  case norole: False
  show ?thesis
  proof (cases "truthy_str (ev_user_id ev)")
    case False
    then have "route_event msg ev s = broadcast msg [] s"
      using norole by (simp add: route_event_def)
    then have "untouched s (route_event msg ev s)" using untouched_broadcast[of s msg "[]"] by simp
    moreover have "\<not> offline_target ev s v"
      using False by (auto simp add: offline_target_def truthy_str_def)
    ultimately show ?thesis by (simp add: untouched_def)
  next
    case True
    then obtain u where u: "ev_user_id ev = Some u" "u \<noteq> []"
      by (auto simp add: truthy_str_def split: option.splits)
    show ?thesis
    proof (cases "has_key u (user_connections s)")
      case online: True
      then have "route_event msg ev s = snd (send_to_user msg (Some u) s)"
        using norole True u by (simp add: route_event_def)
      then have "untouched s (route_event msg ev s)"
        using untouched_send_to_user[of s msg "Some u"] by simp
      moreover have "\<not> offline_target ev s v"
        using online u by (auto simp add: offline_target_def)
      ultimately show ?thesis by (simp add: untouched_def)
    next
      case False
      let ?q = "case map_of (message_queue s) u of None \<Rightarrow> [] | Some q \<Rightarrow> q"
      have e: "route_event msg ev s
          = s\<lparr>message_queue := AList.update u (?q @ [msg]) (message_queue s)\<rparr>"
        using norole True u False by (simp add: route_event_def Let_def)
      have o: "offline_target ev s v \<longleftrightarrow> v = u"
        using norole u False by (auto simp add: offline_target_def)
      have wf: "queue_wf (message_queue s) \<Longrightarrow> numeric_timestamp msg
          \<Longrightarrow> queue_wf (AList.update u (?q @ [msg]) (message_queue s))"
      proof -
        assume a: "queue_wf (message_queue s)" and b: "numeric_timestamp msg"
        have "list_all numeric_timestamp ?q"
          using queue_wf_entry[OF a] by (cases "map_of (message_queue s) u") simp_all
        then have "list_all numeric_timestamp (?q @ [msg])" using b by simp
        then show ?thesis by (rule queue_wf_update[OF a])
      qed
      show ?thesis using e o wf by (simp add: update_conv')
    qed
  qed
qed

text \<open>
  C4, amended. Start from queues with one entry per user and numeric timestamps, and
  handle one event. The sweep at the end of the handler reads the loop clock; call
  that reading \<open>now\<close>. Afterwards the queue of every user holds exactly the entries
  it held before, extended by the event's message when the event is addressed to
  that user while offline, that are less than 24 hours old at \<open>now\<close>, in their old
  order; a queue with no such entry disappears. There is no bound on the number of
  entries and nothing is dropped for size. The queues are again of the same form.
\<close>

theorem queue_after_event:
  assumes "queue_wf (message_queue s)" and "ev_event_type ev = Some et"
  shows "queue_wf (message_queue (handle_redis_event ev s))
       \<and> (\<forall>v. map_of (message_queue (handle_redis_event ev s)) v
            = retained (loop_clock s (loop_reads (handle_redis_event ev s) - 1))
                (if offline_target ev s v
                 then Some ((case map_of (message_queue s) v of None \<Rightarrow> [] | Some q \<Rightarrow> q)
                            @ [event_message ev (loop_clock s (loop_reads s))])
                 else map_of (message_queue s) v))"
proof -
  let ?t = "loop_clock s (loop_reads s)"
  let ?msg = "event_message ev ?t"
  define s1 where "s1 = snd (loop_time s)"
  define s2 where "s2 = dispatch_event et ev s1"
  define s3 where "s3 = route_event ?msg ev s2"
  have h: "handle_redis_event ev s = cleanup_message_queue s3"
    using assms(2) by (simp add: handle_redis_event_def loop_time_def Let_def s1_def s2_def s3_def)
  have u1: "untouched s s1" unfolding s1_def by (rule untouched_loop_time)
  have u2: "untouched s1 s2" unfolding s2_def by (rule untouched_dispatch)
  have u12: "untouched s s2" by (rule untouched_trans[OF u1 u2])
  have q2: "message_queue s2 = message_queue s" and c2: "user_connections s2 = user_connections s"
    and l2: "loop_clock s2 = loop_clock s"
    using u12 by (simp_all add: untouched_def)
  have o2: "offline_target ev s2 v = offline_target ev s v" for v
    using c2 by (simp add: offline_target_def)
  have r: "map_of (message_queue s3) v
     = (if offline_target ev s v
        then Some ((case map_of (message_queue s) v of None \<Rightarrow> [] | Some q \<Rightarrow> q) @ [?msg])
        else map_of (message_queue s) v)" for v
    using route_event_queue[of ?msg ev s2 v] q2 o2 by (simp add: s3_def)
  have l3: "loop_clock s3 = loop_clock s"
    using route_event_queue[of ?msg ev s2] l2 by (simp add: s3_def)
  have wf3: "queue_wf (message_queue s3)"
    using route_event_queue[of ?msg ev s2] q2 assms(1) numeric_event_message[of ev ?t]
    by (simp add: s3_def)
  have n: "loop_reads (cleanup_message_queue s3) - 1 = loop_reads s3"
    by (simp add: cleanup_message_queue_def loop_time_def Let_def)
  have a: "queue_wf (message_queue (handle_redis_event ev s))"
    unfolding h by (rule queue_wf_cleanup[OF wf3])
  have b: "map_of (message_queue (handle_redis_event ev s)) v
            = retained (loop_clock s (loop_reads (handle_redis_event ev s) - 1))
                (if offline_target ev s v
                 then Some ((case map_of (message_queue s) v of None \<Rightarrow> [] | Some q \<Rightarrow> q) @ [?msg])
                 else map_of (message_queue s) v)" for v
    unfolding h n using cleanup_map_of[OF wf3, of v] r[of v] l3 by simp
  from a b show ?thesis by blast
qed

lemma filter_all: "\<forall>x \<in> set xs. P x \<Longrightarrow> filter P xs = xs"
  by (induction xs) auto

lemma notice_within:
  "k < 43000000 \<Longrightarrow>
     within_retention (real (Suc (2 * k)) / 1000) (event_message notice_event (real (2 * i) / 1000))"
  by (simp add: within_retention_def event_message_def field_simps)

lemma cleanup_single:
  assumes "keep_fresh (loop_clock s (loop_reads s)) (loop_clock s (loop_reads s) - 86400) ms = Some ms"
    and "ms \<noteq> []" and "message_queue s = [(u, ms)]"
  shows "cleanup_message_queue s = s\<lparr>loop_reads := Suc (loop_reads s)\<rparr>"
  using assms by (simp add: cleanup_message_queue_def loop_time_def Let_def)

lemma notice_handled:
  "handle_redis_event notice_event s
     = cleanup_message_queue
         (route_event (event_message notice_event (loop_clock s (loop_reads s))) notice_event
            (s\<lparr>loop_reads := Suc (loop_reads s)\<rparr>))"
proof -
  have d: "dispatch_event ''notice'' ev t = t" for ev t
    by (simp add: dispatch_event_def)
  have e: "ev_event_type notice_event = Some ''notice''" by (simp add: notice_event_def)
  show ?thesis
    by (simp add: handle_redis_event_def loop_time_def Let_def e d)
qed

lemma notice_routed:
  assumes "user_connections s = []"
  shows "route_event msg notice_event s
     = s\<lparr>message_queue :=
           AList.update ''u1'' ((case map_of (message_queue s) ''u1'' of None \<Rightarrow> [] | Some q \<Rightarrow> q) @ [msg])
             (message_queue s)\<rparr>"
proof -
  have e: "ev_target_role notice_event = None" "ev_user_id notice_event = Some ''u1''"
    by (simp_all add: notice_event_def)
  show ?thesis using assms
    by (simp add: route_event_def e truthy_str_def has_key_def Let_def)
qed

lemma notice_queue_append:
  "AList.update ''u1''
     ((case map_of (notice_queue k) ''u1'' of None \<Rightarrow> [] | Some q \<Rightarrow> q)
        @ [event_message notice_event (real (2 * k) / 1000)])
     (notice_queue k)
   = notice_queue (Suc k)"
  by (simp add: notice_queue_def)

lemma notice_step:
  assumes k: "k < 43000000"
    and s: "user_connections s = []" "loop_clock s = (\<lambda>i. real i / 1000)" "loop_reads s = 2 * k"
      "message_queue s = notice_queue k"
  shows "user_connections (handle_redis_event notice_event s) = []
       \<and> loop_clock (handle_redis_event notice_event s) = (\<lambda>i. real i / 1000)
       \<and> loop_reads (handle_redis_event notice_event s) = 2 * Suc k
       \<and> message_queue (handle_redis_event notice_event s) = notice_queue (Suc k)"
proof -
  define ms where "ms = map (\<lambda>i. event_message notice_event (real (2 * i) / 1000)) [0..<Suc k]"
  let ?c = "real (Suc (2 * k)) / 1000"
  have ne: "ms \<noteq> []" by (simp add: ms_def)
  have nq: "notice_queue (Suc k) = [(''u1'', ms)]" by (simp add: notice_queue_def ms_def)
  have num: "list_all numeric_timestamp ms"
    by (simp add: ms_def list_all_iff numeric_event_message)
  have "filter (within_retention ?c) ms = ms"
    unfolding ms_def by (rule filter_all) (use notice_within[OF k] in auto)
  then have kf: "keep_fresh ?c (?c - 86400) ms = Some ms"
    using keep_fresh_numeric[OF num, of ?c] by simp
  define s1 where "s1 = s\<lparr>loop_reads := Suc (loop_reads s)\<rparr>"
  define s3 where "s3 = s1\<lparr>message_queue := notice_queue (Suc k)\<rparr>"
  have t: "loop_clock s (loop_reads s) = real (2 * k) / 1000" using s by simp
  have "route_event (event_message notice_event (real (2 * k) / 1000)) notice_event s1 = s3"
    using notice_routed[of s1 "event_message notice_event (real (2 * k) / 1000)"] s
      notice_queue_append[of k]
    by (simp add: s1_def s3_def)
  then have h: "handle_redis_event notice_event s = cleanup_message_queue s3"
    using notice_handled[of s] t by (simp add: s1_def)
  have c3: "loop_clock s3 (loop_reads s3) = ?c" using s by (simp add: s3_def s1_def)
  have m3: "message_queue s3 = [(''u1'', ms)]" using nq by (simp add: s3_def)
  have kf3: "keep_fresh (loop_clock s3 (loop_reads s3)) (loop_clock s3 (loop_reads s3) - 86400) ms = Some ms"
    unfolding c3 by (rule kf)
  have "cleanup_message_queue s3 = s3\<lparr>loop_reads := Suc (loop_reads s3)\<rparr>"
    by (rule cleanup_single[OF kf3 ne m3])
  then show ?thesis unfolding h using s by (simp add: s3_def s1_def)
qed

lemma notice_run:
  "k + n \<le> 43000000 \<Longrightarrow>
   user_connections s = [] \<Longrightarrow> loop_clock s = (\<lambda>i. real i / 1000) \<Longrightarrow> loop_reads s = 2 * k \<Longrightarrow>
   message_queue s = notice_queue k \<Longrightarrow>
     message_queue (handle_events (replicate n notice_event) s) = notice_queue (k + n)"
proof (induction n arbitrary: k s)
  case 0
  then show ?case by simp
next
  case (Suc n)
  have k: "k < 43000000" using Suc.prems(1) by simp
  note st = notice_step[OF k Suc.prems(2-5)]
  have "message_queue (handle_events (replicate n notice_event) (handle_redis_event notice_event s))
      = notice_queue (Suc k + n)"
    by (rule Suc.IH) (use st Suc.prems(1) in simp_all)
  then show ?case by simp
qed

lemma notice_queue_shape:
  "0 < n \<Longrightarrow>
     map_option length (map_of (notice_queue n) ''u1'') = Some n
     \<and> map_option hd (map_of (notice_queue n) ''u1'') = Some (event_message notice_event 0)"
  by (simp add: notice_queue_def hd_map hd_upt)

text \<open>
  C4, as stated, fails: no size bound exists. A hundred thousand events for the
  offline user \<^verbatim>\<open>u1\<close>, two milliseconds apart, leave a queue of a hundred thousand
  entries whose first entry is still the oldest message.
\<close>

theorem queue_keeps_hundred_thousand:
  "map_option length
     (map_of (message_queue (handle_events (replicate 100000 notice_event) quiet_world)) ''u1'')
     = Some 100000
   \<and> map_option hd
     (map_of (message_queue (handle_events (replicate 100000 notice_event) quiet_world)) ''u1'')
     = Some (event_message notice_event 0)"
proof -
  have q0: "message_queue quiet_world = notice_queue 0"
    by (simp add: quiet_world_def fresh_world_def notice_queue_def)
  have u0: "user_connections quiet_world = []" and c0: "loop_clock quiet_world = (\<lambda>i. real i / 1000)"
    and r0: "loop_reads quiet_world = 2 * 0"
    by (simp_all add: quiet_world_def fresh_world_def)
  have b: "0 + 100000 \<le> (43000000::nat)" by simp
  have "message_queue (handle_events (replicate 100000 notice_event) quiet_world)
      = notice_queue (0 + 100000)"
    by (rule notice_run[OF b u0 c0 r0 q0])
  then have e: "message_queue (handle_events (replicate 100000 notice_event) quiet_world)
      = notice_queue 100000"
    by (simp only: add_0)
  have p: "0 < (100000::nat)" by simp
  show ?thesis unfolding e by (rule notice_queue_shape[OF p])
qed

theorem queue_after_event_witness:
  "queue_wf (message_queue quiet_world)
   \<and> ev_event_type notice_event = Some ''notice''
   \<and> offline_target notice_event quiet_world ''u1''
   \<and> map_of (message_queue (handle_redis_event notice_event quiet_world)) ''u1''
       = Some [event_message notice_event 0]"
proof -
  have a: "queue_wf (message_queue quiet_world)"
    by (simp add: queue_wf_def quiet_world_def fresh_world_def)
  have b: "ev_event_type notice_event = Some ''notice''" by (simp add: notice_event_def)
  have o: "offline_target notice_event quiet_world ''u1''"
    by (simp add: offline_target_def notice_event_def quiet_world_def fresh_world_def
        truthy_str_def has_key_def)
  have q0: "message_queue quiet_world = notice_queue 0"
    by (simp add: quiet_world_def fresh_world_def notice_queue_def)
  have u0: "user_connections quiet_world = []" and c0: "loop_clock quiet_world = (\<lambda>i. real i / 1000)"
    and r0: "loop_reads quiet_world = 2 * 0"
    by (simp_all add: quiet_world_def fresh_world_def)
  have k: "(0::nat) < 43000000" by simp
  have r: "loop_reads (handle_redis_event notice_event quiet_world) = 2"
    using notice_step[OF k u0 c0 r0 q0] by simp
  have w: "within_retention (1 / 1000) (event_message notice_event 0)"
    by (simp add: within_retention_def event_message_def)
  have "map_of (message_queue (handle_redis_event notice_event quiet_world)) ''u1''
      = retained (loop_clock quiet_world (loop_reads (handle_redis_event notice_event quiet_world) - 1))
          (if offline_target notice_event quiet_world ''u1''
           then Some ((case map_of (message_queue quiet_world) ''u1'' of None \<Rightarrow> [] | Some q \<Rightarrow> q)
                      @ [event_message notice_event (loop_clock quiet_world (loop_reads quiet_world))])
           else map_of (message_queue quiet_world) ''u1'')"
    using queue_after_event[OF a b] by blast
  then have "map_of (message_queue (handle_redis_event notice_event quiet_world)) ''u1''
      = Some [event_message notice_event 0]"
    using o r c0 r0 q0 w by (simp add: retained_def notice_queue_def)
  then show ?thesis using a b o by blast
qed

end
